theory Spec2Isabelle
  imports Complex_Main
begin

section \<open>Data model\<close>

text \<open>
  The technology catalogue and the hourly records of the capacity-expansion optimiser.
  JavaScript numbers are modelled as exact reals: rounding, infinities and NaN are outside
  the model. A lifetime is a whole number of years, so \<open>Math.pow(1 + r, n)\<close> on a positive
  lifetime is the \<open>n\<close>-fold product. Optional fields are options; the display fields
  (name, colour, installedCapacity, time) play no part in the optimisation and are left out.
  A technology is identified by one of the ten members of \<open>TechType\<close>, and the catalogue
  \<open>Object.values(techs)\<close> is the list of its definitions in order. The weight of an hour is a
  number, on which \<open>weight || 0\<close> is the weight itself; \<open>isFixed\<close> is read for its truth
  value only, so a missing flag is \<open>False\<close>.
\<close>

datatype TechType =
  SOLAR | WIND | WIND_OFFSHORE | BATTERY | NUCLEAR | COAL | GAS_CCGT | GAS_OCGT | HYDROGEN | DIESEL

datatype TechKind = renewable | storage | baseload | dispatchable

record TechDefinition =
  id_tech :: TechType
  type_tech :: TechKind
  capex :: real
  capexPerKwh :: "real option"
  duration :: "real option"
  opexFixed :: real
  opexVar :: real
  fuelCost :: real
  lifetime :: int
  wacc :: real
  co2 :: real
  enabled :: bool
  isFixed :: bool
  fixedCapacity :: "real option"

record HourlyData =
  hour :: nat
  demand :: real
  solar :: real
  wind :: real
  offshore :: real
  weight :: real
  includeInStats :: bool

definition HOURS_IN_WEEK :: nat where
  "HOURS_IN_WEEK = 168"

text \<open>
  \<open>x || d\<close> on an optional number: the default replaces a missing value and the falsy
  number 0.
\<close>

definition num_or :: "real option \<Rightarrow> real \<Rightarrow> real" where
  "num_or x d = (case x of None \<Rightarrow> d | Some v \<Rightarrow> if v = 0 then d else v)"

section \<open>Cost annualisation\<close>

definition getAnnualFixedCost :: "TechDefinition \<Rightarrow> real" where
  "getAnnualFixedCost tech =
     (let r = wacc tech / 100;
          n = lifetime tech;
          annualizedCapex =
            (if n > 0 then
               (if r = 0 then capex tech / real_of_int n
                else (let crf = (r * (1 + r) ^ nat n) / ((1 + r) ^ nat n - 1)
                      in capex tech * crf))
             else 0)
      in annualizedCapex + opexFixed tech)"


definition getMarginalCost :: "TechDefinition \<Rightarrow> real" where
  "getMarginalCost tech = opexVar tech + fuelCost tech"

section \<open>The linear program\<close>

text \<open>
  \<open>buildLPModel\<close> writes the program as text in the CPLEX LP format. The model keeps the
  rows it writes as data: a variable name is a constructor (\<open>c_SOLAR\<close> is \<open>V_c SOLAR\<close>,
  \<open>g_SOLAR_3\<close> is \<open>V_g SOLAR 3\<close>, \<open>b_ch_3\<close> is \<open>V_b_ch 3\<close>, \<open>u_3\<close> is \<open>V_u 3\<close>), a row
  label likewise (\<open>bal_3\<close> is \<open>bal 3\<close>), a linear form is the list of its signed terms in
  the order they are written, and a bound \<open>v >= 0\<close> is the variable \<open>v\<close>.
\<close>

datatype lpvar =
  V_c TechType | V_e TechType | V_g TechType nat | V_b_ch nat | V_b_dis nat | V_b_soc nat | V_u nat

datatype label =
  fix_e TechType | fix_c TechType | cap TechType nat | ch_lim nat | dis_lim nat | soc_cap nat
| soc_dyn nat | soc_start nat | bal nat | min_res_global

datatype relation = LE | EQ

type_synonym linform = "(real \<times> lpvar) list"

record constraint =
  label_of :: label
  lhs :: linform
  rel :: relation
  rhs :: real

record lp_model =
  objective :: linform
  constraints :: "constraint list"
  bounds :: "lpvar list"

record built =
  lp :: lp_model
  vars :: "lpvar list"
  flatData :: "HourlyData list"

text \<open>
  What the loops push, in order: objective terms, constraint rows, variables added to the
  \<open>vars\<close> set, and terms of the balance row of the current hour.
\<close>

record rows =
  objR :: linform
  consR :: "constraint list"
  varsR :: "lpvar list"
  balR :: linform

definition no_rows :: rows where
  "no_rows = \<lparr>objR = [], consR = [], varsR = [], balR = []\<rparr>"

definition then_rows :: "rows \<Rightarrow> rows \<Rightarrow> rows" where
  "then_rows a b =
     \<lparr>objR = objR a @ objR b, consR = consR a @ consR b,
      varsR = varsR a @ varsR b, balR = balR a @ balR b\<rparr>"

definition all_rows :: "rows list \<Rightarrow> rows" where
  "all_rows rs = foldr then_rows rs no_rows"

text \<open>A JavaScript \<open>Set\<close> keeps the first insertion of each element.\<close>

fun set_add :: "lpvar list \<Rightarrow> lpvar list \<Rightarrow> lpvar list" where
  "set_add seen [] = seen"
| "set_add seen (v # vs) = set_add (if v \<in> set seen then seen else seen @ [v]) vs"

definition VOLL :: real where
  "VOLL = 20000000"

definition BATTERY_EFF :: real where
  "BATTERY_EFF = 9 / 10"

definition BATTERY_C_RATE :: real where
  "BATTERY_C_RATE = 1"

definition enabledTechs :: "TechDefinition list \<Rightarrow> TechDefinition list" where
  "enabledTechs techs = filter enabled techs"

definition battTech :: "TechDefinition list \<Rightarrow> TechDefinition option" where
  "battTech techs = List.find (\<lambda>t. type_tech t = storage) (enabledTechs techs)"

text \<open>The annual cost of a storage technology per MWh of energy capacity (lines 187-200).\<close>

definition annualCostPerMwh :: "TechDefinition \<Rightarrow> real" where
  "annualCostPerMwh tech =
     (let costPerKwh = num_or (capexPerKwh tech) (capex tech / num_or (duration tech) 4);
          r = wacc tech / 100;
          n = lifetime tech;
          annualizedCapexPerKwh =
            (if n > 0 then
               (if r = 0 then costPerKwh / real_of_int n
                else (let crf = (r * (1 + r) ^ nat n) / ((1 + r) ^ nat n - 1)
                      in costPerKwh * crf))
             else 0)
      in (annualizedCapexPerKwh + opexFixed tech / num_or (duration tech) 4) * 1000)"

text \<open>The capacity cost and the fixed-capacity pin of one enabled technology.\<close>

definition capacityRows :: "TechDefinition \<Rightarrow> rows" where
  "capacityRows tech =
     (if type_tech tech = storage then
        \<lparr>objR = [(annualCostPerMwh tech, V_e (id_tech tech))],
         consR = (if isFixed tech then
                    [\<lparr>label_of = fix_e (id_tech tech), lhs = [(1, V_e (id_tech tech))],
                      rel = EQ, rhs = num_or (fixedCapacity tech) 0 * 1000\<rparr>]
                  else []),
         varsR = [V_e (id_tech tech)], balR = []\<rparr>
      else
        (let cost = getAnnualFixedCost tech * 1000 in
         \<lparr>objR = [(cost, V_c (id_tech tech))],
          consR = (if isFixed tech then
                     [\<lparr>label_of = fix_c (id_tech tech), lhs = [(1, V_c (id_tech tech))],
                       rel = EQ, rhs = num_or (fixedCapacity tech) 0 * 1000\<rparr>]
                   else []),
          varsR = [V_c (id_tech tech)], balR = []\<rparr>))"

text \<open>The availability factor of a renewable technology at an hour (lines 242-245).\<close>

definition profile_of :: "TechDefinition \<Rightarrow> HourlyData \<Rightarrow> real" where
  "profile_of tech hourData =
     (let profile = 0;
          profile = (if id_tech tech = SOLAR then solar hourData else profile);
          profile = (if id_tech tech = WIND then wind hourData else profile);
          profile = (if id_tech tech = WIND_OFFSHORE then offshore hourData else profile)
      in profile)"

text \<open>One enabled technology at hour \<open>i\<close>: the body of the inner loop (lines 227-255).\<close>

definition genRows :: "nat \<Rightarrow> HourlyData \<Rightarrow> TechDefinition \<Rightarrow> rows" where
  "genRows i hourData tech =
     (if type_tech tech = storage then no_rows
      else
        (let weight = weight hourData;
             varGen = V_g (id_tech tech) i;
             marginalCost = getMarginalCost tech
         in \<lparr>objR = (if marginalCost > 0 then [(marginalCost * weight, varGen)] else []),
             consR =
               [if type_tech tech = renewable then
                  (let profile = profile_of tech hourData in
                   if profile > 1 / 1000 then
                     \<lparr>label_of = cap (id_tech tech) i,
                      lhs = [(1, varGen), (- profile, V_c (id_tech tech))], rel = LE, rhs = 0\<rparr>
                   else
                     \<lparr>label_of = cap (id_tech tech) i, lhs = [(1, varGen)], rel = LE, rhs = 0\<rparr>)
                else
                  \<lparr>label_of = cap (id_tech tech) i,
                   lhs = [(1, varGen), (- 1, V_c (id_tech tech))], rel = LE, rhs = 0\<rparr>],
             varsR = [varGen],
             balR = [(1, varGen)]\<rparr>))"

text \<open>The storage rows of hour \<open>i\<close> (lines 257-287).\<close>

definition storageRows :: "nat \<Rightarrow> HourlyData \<Rightarrow> TechDefinition option \<Rightarrow> rows" where
  "storageRows i hourData batt =
     (case batt of
        None \<Rightarrow> no_rows
      | Some b \<Rightarrow>
          (let weight = weight hourData;
               vCh = V_b_ch i; vDis = V_b_dis i; vSoc = V_b_soc i
           in \<lparr>objR = [(1 / 10 * weight, vCh)],
               consR =
                 [\<lparr>label_of = ch_lim i, lhs = [(1, vCh), (- BATTERY_C_RATE, V_e (id_tech b))],
                   rel = LE, rhs = 0\<rparr>,
                  \<lparr>label_of = dis_lim i, lhs = [(1, vDis), (- BATTERY_C_RATE, V_e (id_tech b))],
                   rel = LE, rhs = 0\<rparr>,
                  \<lparr>label_of = soc_cap i, lhs = [(1, vSoc), (- 1, V_e (id_tech b))],
                   rel = LE, rhs = 0\<rparr>]
                 @ (if i mod HOURS_IN_WEEK \<noteq> 0 then
                      (let prevSoc = V_b_soc (i - 1) in
                       [\<lparr>label_of = soc_dyn i,
                         lhs = [(1, vSoc), (- 1, prevSoc), (- BATTERY_EFF, vCh), (1, vDis)],
                         rel = EQ, rhs = 0\<rparr>])
                    else if i > 0 then
                      [\<lparr>label_of = soc_start i,
                        lhs = [(1, vSoc), (- BATTERY_EFF, vCh), (1, vDis)],
                        rel = EQ, rhs = 0\<rparr>]
                    else []),
               varsR = [vCh, vDis, vSoc],
               balR = [(1, vDis), (- 1, vCh)]\<rparr>))"

definition unservedRows :: "nat \<Rightarrow> HourlyData \<Rightarrow> rows" where
  "unservedRows i hourData =
     (let weight = weight hourData; vUnserved = V_u i
      in \<lparr>objR = [(VOLL * weight, vUnserved)], consR = [], varsR = [vUnserved],
          balR = [(1, vUnserved)]\<rparr>)"

text \<open>One pass of the hourly loop (lines 221-295): the balance row closes the hour.\<close>

definition hourRows :: "TechDefinition list \<Rightarrow> HourlyData list \<Rightarrow> nat \<Rightarrow> rows" where
  "hourRows techs flat i =
     (let hourData = flat ! i;
          pushed = then_rows (all_rows (map (genRows i hourData) (enabledTechs techs)))
                     (then_rows (storageRows i hourData (battTech techs))
                        (unservedRows i hourData))
      in \<lparr>objR = objR pushed,
          consR = consR pushed
                  @ [\<lparr>label_of = bal i, lhs = balR pushed, rel = EQ, rhs = demand hourData\<rparr>],
          varsR = varsR pushed,
          balR = []\<rparr>)"

text \<open>The minimum-renewables row (lines 305-336).\<close>

definition nonRezGenTerms :: "TechDefinition list \<Rightarrow> HourlyData list \<Rightarrow> linform" where
  "nonRezGenTerms techs flat =
     concat (map
       (\<lambda>tech.
          if type_tech tech \<noteq> renewable \<and> type_tech tech \<noteq> storage then
            concat (map
              (\<lambda>i. let row = flat ! i in
                    if includeInStats row then [(weight row, V_g (id_tech tech) i)] else [])
              [0..<length flat])
          else [])
       (enabledTechs techs))"

definition totalAnnualDemand :: "HourlyData list \<Rightarrow> real" where
  "totalAnnualDemand flat =
     sum_list (map (\<lambda>row. demand row * weight row) (filter includeInStats flat))"

definition minResRows :: "TechDefinition list \<Rightarrow> HourlyData list \<Rightarrow> real \<Rightarrow> rows" where
  "minResRows techs flat minRenewables =
     (if minRenewables > 0 then
        (let maxNonRez = totalAnnualDemand flat * (1 - minRenewables / 100) in
         if nonRezGenTerms techs flat \<noteq> [] then
           \<lparr>objR = [],
            consR = [\<lparr>label_of = min_res_global, lhs = nonRezGenTerms techs flat,
                      rel = LE, rhs = maxNonRez\<rparr>],
            varsR = [], balR = []\<rparr>
         else no_rows)
      else no_rows)"

definition buildLPModel :: "TechDefinition list \<Rightarrow> HourlyData list list \<Rightarrow> real \<Rightarrow> built" where
  "buildLPModel techs dataChunks minRenewables =
     (let flat = concat dataChunks;
          TOTAL_HOURS = length flat;
          pushed =
            then_rows (all_rows (map capacityRows (enabledTechs techs)))
              (then_rows (all_rows (map (hourRows techs flat) [0..<TOTAL_HOURS]))
                 (minResRows techs flat minRenewables));
          vs = set_add [] (varsR pushed)
      in \<lparr>lp = \<lparr>objective = objR pushed, constraints = consR pushed, bounds = vs\<rparr>,
          vars = vs, flatData = flat\<rparr>)"

section \<open>Solutions of the program\<close>

definition eval_form :: "(lpvar \<Rightarrow> real) \<Rightarrow> linform \<Rightarrow> real" where
  "eval_form x ts = sum_list (map (\<lambda>(a, v). a * x v) ts)"

definition holds :: "(lpvar \<Rightarrow> real) \<Rightarrow> constraint \<Rightarrow> bool" where
  "holds x c =
     (case rel c of
        LE \<Rightarrow> eval_form x (lhs c) \<le> rhs c
      | EQ \<Rightarrow> eval_form x (lhs c) = rhs c)"

definition feasible :: "lp_model \<Rightarrow> (lpvar \<Rightarrow> real) \<Rightarrow> bool" where
  "feasible m x = (list_all (holds x) (constraints m) \<and> list_all (\<lambda>v. 0 \<le> x v) (bounds m))"

section \<open>Solving and extracting the result\<close>

text \<open>
  The solver is an external collaborator: \<open>highsSolver.solve\<close> is a parameter of the model.
  It throws or returns a status and, per column, a primal value.
  \<open>solution[name]?.Primal || 0\<close> reads a column and takes 0 for a missing one.
\<close>

datatype error = Error string

record solver_result =
  Status :: string
  Columns :: "lpvar \<rightharpoonup> real"

definition primal :: "(lpvar \<rightharpoonup> real) \<Rightarrow> lpvar \<Rightarrow> real" where
  "primal solution v = (case solution v of None \<Rightarrow> 0 | Some p \<Rightarrow> p)"

text \<open>
  A row of the hourly output: the input record, the generation field of each technology
  (\<open>solarGen\<close>, \<open>windGen\<close>, ... keyed by the technology), the storage fields, the unserved
  energy and the curtailment.
\<close>

record HourlyResult =
  source :: HourlyData
  gens :: "TechType \<rightharpoonup> real"
  batteryCharge :: "real option"
  batteryDischarge :: "real option"
  batterySoC :: "real option"
  shortfall :: real
  curtailment :: real

record SimulationResult =
  hourly :: "HourlyResult list"
  totalCost :: real
  lcoe :: real
  totalCo2 :: real
  mix :: "TechType \<rightharpoonup> real"
  capacities :: "TechType \<rightharpoonup> real"
  unservedEnergy :: real
  annualServed :: real

definition capacities_of :: "TechDefinition list \<Rightarrow> (lpvar \<rightharpoonup> real) \<Rightarrow> (TechType \<rightharpoonup> real)" where
  "capacities_of techs solution =
     fold (\<lambda>t caps.
             if type_tech t = storage then caps(id_tech t \<mapsto> primal solution (V_e (id_tech t)))
             else caps(id_tech t \<mapsto> primal solution (V_c (id_tech t))))
          (enabledTechs techs) Map.empty"

text \<open>\<open>m[k] || 0\<close> on an object of numbers.\<close>

definition entry_or0 :: "(TechType \<rightharpoonup> real) \<Rightarrow> TechType \<Rightarrow> real" where
  "entry_or0 m k = (case m k of None \<Rightarrow> 0 | Some c \<Rightarrow> c)"

text \<open>The curtailment one technology adds at hour \<open>i\<close> (lines 410-422).\<close>

definition curtailmentStep ::
  "(lpvar \<rightharpoonup> real) \<Rightarrow> (TechType \<rightharpoonup> real) \<Rightarrow> HourlyData \<Rightarrow> nat \<Rightarrow> TechDefinition \<Rightarrow> real \<Rightarrow> real" where
  "curtailmentStep solution caps row i t hourlyCurtailment =
     (if type_tech t = storage then hourlyCurtailment
      else
        (let gen = primal solution (V_g (id_tech t) i) in
         if type_tech t = renewable then
           (let profile = profile_of t row;
                capacity = entry_or0 caps (id_tech t);
                potential = capacity * profile
            in if potential > gen + 1 / 1000 then hourlyCurtailment + (potential - gen)
               else hourlyCurtailment)
         else hourlyCurtailment))"

definition hourlyCurtailment ::
  "TechDefinition list \<Rightarrow> (lpvar \<rightharpoonup> real) \<Rightarrow> (TechType \<rightharpoonup> real) \<Rightarrow> HourlyData \<Rightarrow> nat \<Rightarrow> real" where
  "hourlyCurtailment techs solution caps row i =
     fold (curtailmentStep solution caps row i) (enabledTechs techs) 0"

definition genFields :: "TechDefinition list \<Rightarrow> (lpvar \<rightharpoonup> real) \<Rightarrow> nat \<Rightarrow> (TechType \<rightharpoonup> real)" where
  "genFields techs solution i =
     fold (\<lambda>t fields.
             if type_tech t = storage \<or> id_tech t = BATTERY then fields
             else fields(id_tech t \<mapsto> primal solution (V_g (id_tech t) i)))
          (enabledTechs techs) Map.empty"

definition hourResult ::
  "TechDefinition list \<Rightarrow> (lpvar \<rightharpoonup> real) \<Rightarrow> (TechType \<rightharpoonup> real) \<Rightarrow> HourlyData list \<Rightarrow> nat \<Rightarrow> HourlyResult" where
  "hourResult techs solution caps flat i =
     (let row = flat ! i;
          batt = battTech techs
      in \<lparr>source = row,
          gens = genFields techs solution i,
          batteryCharge = (if batt \<noteq> None then Some (primal solution (V_b_ch i)) else None),
          batteryDischarge = (if batt \<noteq> None then Some (primal solution (V_b_dis i)) else None),
          batterySoC = (if batt \<noteq> None then Some (primal solution (V_b_soc i)) else None),
          shortfall = primal solution (V_u i),
          curtailment = hourlyCurtailment techs solution caps row i\<rparr>)"

definition hourlyResults ::
  "TechDefinition list \<Rightarrow> (lpvar \<rightharpoonup> real) \<Rightarrow> (TechType \<rightharpoonup> real) \<Rightarrow> HourlyData list \<Rightarrow> HourlyResult list" where
  "hourlyResults techs solution caps flat =
     map (hourResult techs solution caps flat) [0..<length flat]"

definition annualDemand :: "HourlyData list \<Rightarrow> real" where
  "annualDemand flat =
     fold (\<lambda>row acc. if includeInStats row then acc + demand row * weight row else acc) flat 0"

definition annualUnserved :: "(lpvar \<rightharpoonup> real) \<Rightarrow> HourlyData list \<Rightarrow> real" where
  "annualUnserved solution flat =
     fold (\<lambda>i acc. if includeInStats (flat ! i)
                    then acc + primal solution (V_u i) * weight (flat ! i) else acc)
          [0..<length flat] 0"

text \<open>The weighted generation per technology and the weighted emissions (lines 424-441).\<close>

definition mixStep ::
  "TechDefinition list \<Rightarrow> (lpvar \<rightharpoonup> real) \<Rightarrow> HourlyData list \<Rightarrow> nat \<Rightarrow> (TechType \<rightharpoonup> real) \<Rightarrow> (TechType \<rightharpoonup> real)" where
  "mixStep techs solution flat i m =
     (let row = flat ! i;
          m1 = fold (\<lambda>t m. if type_tech t = storage \<or> \<not> includeInStats row then m
                            else m(id_tech t \<mapsto>
                                     entry_or0 m (id_tech t)
                                     + primal solution (V_g (id_tech t) i) * weight row))
                    (enabledTechs techs) m
      in if battTech techs \<noteq> None \<and> includeInStats row
         then m1(BATTERY \<mapsto> entry_or0 m1 BATTERY + primal solution (V_b_dis i) * weight row)
         else m1)"

definition mix_of :: "TechDefinition list \<Rightarrow> (lpvar \<rightharpoonup> real) \<Rightarrow> HourlyData list \<Rightarrow> (TechType \<rightharpoonup> real)" where
  "mix_of techs solution flat = fold (mixStep techs solution flat) [0..<length flat] Map.empty"

definition totalCo2_of :: "TechDefinition list \<Rightarrow> (lpvar \<rightharpoonup> real) \<Rightarrow> HourlyData list \<Rightarrow> real" where
  "totalCo2_of techs solution flat =
     fold (\<lambda>i acc.
             fold (\<lambda>t acc. if type_tech t = storage \<or> \<not> includeInStats (flat ! i) then acc
                            else acc + primal solution (V_g (id_tech t) i) * weight (flat ! i) * co2 t)
                  (enabledTechs techs) acc)
          [0..<length flat] 0"

text \<open>The recomputed cost (lines 453-509).\<close>

definition totalAnnualCostPerMwh :: "TechDefinition \<Rightarrow> real" where
  "totalAnnualCostPerMwh t =
     (let duration_h = num_or (duration t) 4;
          costPerKwh = num_or (capexPerKwh t) (capex t / duration_h);
          r = wacc t / 100;
          n = lifetime t;
          annualizedCapexPerKwh =
            (if n > 0 then
               (if r = 0 then costPerKwh / real_of_int n
                else (let crf = (r * (1 + r) ^ nat n) / ((1 + r) ^ nat n - 1)
                      in costPerKwh * crf))
             else 0);
          opexPerKwh = opexFixed t / duration_h
      in (annualizedCapexPerKwh + opexPerKwh) * 1000)"

definition totalFixedCost :: "TechDefinition list \<Rightarrow> (TechType \<rightharpoonup> real) \<Rightarrow> real" where
  "totalFixedCost techs caps =
     fold (\<lambda>t acc.
             if type_tech t = storage
             then acc + totalAnnualCostPerMwh t * entry_or0 caps (id_tech t)
             else acc + (getAnnualFixedCost t * 1000) * entry_or0 caps (id_tech t))
          (enabledTechs techs) 0"

definition variableCostStep ::
  "TechDefinition list \<Rightarrow> (lpvar \<rightharpoonup> real) \<Rightarrow> HourlyData list \<Rightarrow> nat \<Rightarrow> real \<Rightarrow> real" where
  "variableCostStep techs solution flat i totalVariableCost =
     (let row = flat ! i in
      if \<not> includeInStats row then totalVariableCost
      else
        (let w = weight row;
             c1 = fold (\<lambda>t acc. if type_tech t = storage then acc
                                 else acc + primal solution (V_g (id_tech t) i) * getMarginalCost t * w)
                       (enabledTechs techs) totalVariableCost;
             c2 = (if battTech techs \<noteq> None then c1 + primal solution (V_b_ch i) * (1 / 10) * w
                   else c1)
         in c2 + primal solution (V_u i) * 20000000 * w))"

definition totalVariableCost :: "TechDefinition list \<Rightarrow> (lpvar \<rightharpoonup> real) \<Rightarrow> HourlyData list \<Rightarrow> real" where
  "totalVariableCost techs solution flat =
     fold (variableCostStep techs solution flat) [0..<length flat] 0"

definition optimizeWithHiGHS ::
  "(lp_model \<Rightarrow> error + solver_result) \<Rightarrow> TechDefinition list \<Rightarrow> HourlyData list list \<Rightarrow> real
     \<Rightarrow> error + SimulationResult" where
  "optimizeWithHiGHS solve techs dataChunks minRenewables =
     (let b = buildLPModel techs dataChunks minRenewables;
          flat = flatData b
      in case solve (lp b) of
           Inl thrown \<Rightarrow> Inl thrown
         | Inr result \<Rightarrow>
             if Status result \<noteq> ''Optimal''
             then Inl (Error (''Solver failed: '' @ Status result))
             else
               (let solution = Columns result;
                    caps = capacities_of techs solution;
                    unserved = annualUnserved solution flat;
                    reportingTotalCost =
                      totalFixedCost techs caps + totalVariableCost techs solution flat;
                    totalServed = max (1 / 10) (annualDemand flat - unserved)
                in Inr \<lparr>hourly = hourlyResults techs solution caps flat,
                        totalCost = reportingTotalCost,
                        lcoe = reportingTotalCost / totalServed,
                        totalCo2 = totalCo2_of techs solution flat,
                        mix = mix_of techs solution flat,
                        capacities = caps,
                        unservedEnergy = unserved,
                        annualServed = totalServed\<rparr>))"

section \<open>Notions of the specification and sample inputs\<close>

text \<open>
  The availability of a technology at an hour, as the specification words it: the recorded
  solar, wind or offshore factor of the hour, and nothing for any other technology.
\<close>

definition availability :: "TechType \<Rightarrow> HourlyData \<Rightarrow> real" where
  "availability k h =
     (case k of SOLAR \<Rightarrow> solar h | WIND \<Rightarrow> wind h | WIND_OFFSHORE \<Rightarrow> offshore h | _ \<Rightarrow> 0)"

text \<open>
  The positions, in the concatenated timeline, of the first hour of each representative
  week.
\<close>

fun weekStartsFrom :: "nat \<Rightarrow> HourlyData list list \<Rightarrow> nat list" where
  "weekStartsFrom k [] = []"
| "weekStartsFrom k (w # ws) = (if w = [] then [] else [k]) @ weekStartsFrom (k + length w) ws"

definition weekStarts :: "HourlyData list list \<Rightarrow> nat list" where
  "weekStarts dataChunks = weekStartsFrom 0 dataChunks"

text \<open>The left-hand side of the balance row of hour \<open>i\<close>, as the loop assembles it.\<close>

definition balanceLHS :: "TechDefinition list \<Rightarrow> nat \<Rightarrow> linform" where
  "balanceLHS techs i =
     map (\<lambda>t. (1, V_g (id_tech t) i)) (filter (\<lambda>t. type_tech t \<noteq> storage) (enabledTechs techs))
     @ (if battTech techs \<noteq> None then [(1, V_b_dis i), (- 1, V_b_ch i)] else [])
     @ [(1, V_u i)]"

text \<open>
  Sample technologies with the economics of the default catalogue (solar pinned at
  0.001 GW, a battery, a gas plant), a sample day hour and a sample night hour.
\<close>

definition ex_solar :: TechDefinition where
  "ex_solar = \<lparr>id_tech = SOLAR, type_tech = renewable, capex = 850, capexPerKwh = None,
     duration = None, opexFixed = 10, opexVar = 0, fuelCost = 0, lifetime = 30, wacc = 6,
     co2 = 0, enabled = True, isFixed = True, fixedCapacity = Some (1 / 1000)\<rparr>"

definition ex_battery :: TechDefinition where
  "ex_battery = \<lparr>id_tech = BATTERY, type_tech = storage, capex = 480, capexPerKwh = Some 120,
     duration = Some 4, opexFixed = 10, opexVar = 1, fuelCost = 0, lifetime = 20, wacc = 5,
     co2 = 0, enabled = True, isFixed = False, fixedCapacity = None\<rparr>"

definition ex_gas :: TechDefinition where
  "ex_gas = \<lparr>id_tech = GAS_CCGT, type_tech = dispatchable, capex = 2000, capexPerKwh = None,
     duration = None, opexFixed = 30, opexVar = 6, fuelCost = 50, lifetime = 20, wacc = 10,
     co2 = 350, enabled = True, isFixed = False, fixedCapacity = None\<rparr>"

definition ex_hour :: HourlyData where
  "ex_hour = \<lparr>hour = 0, demand = 4995 / 10000, solar = 1 / 2, wind = 0, offshore = 0,
     weight = 13, includeInStats = True\<rparr>"

definition ex_night :: HourlyData where
  "ex_night = \<lparr>hour = 1, demand = 4995 / 10000, solar = 0, wind = 0, offshore = 0,
     weight = 13, includeInStats = True\<rparr>"

text \<open>
  A dispatch of solar and gas over the day hour and the night hour: solar serves the day,
  gas the night.
\<close>

definition ex_dispatch :: "lpvar \<Rightarrow> real" where
  "ex_dispatch v =
     (case v of
        V_c k \<Rightarrow> (if k = SOLAR then 1 else if k = GAS_CCGT then 4995 / 10000 else 0)
      | V_g k i \<Rightarrow> (if (k = SOLAR \<and> i = 0) \<or> (k = GAS_CCGT \<and> i = 1) then 4995 / 10000 else 0)
      | _ \<Rightarrow> 0)"

text \<open>A representative week: 168 times the sample day hour.\<close>

definition ex_week :: "HourlyData list" where
  "ex_week = replicate 168 ex_hour"

text \<open>A point that keeps the storage full and idle and serves no demand.\<close>

definition ex_idle :: "lpvar \<Rightarrow> real" where
  "ex_idle v = (case v of V_e k \<Rightarrow> 5 | V_b_soc i \<Rightarrow> 5 | V_u i \<Rightarrow> 4995 / 10000 | _ \<Rightarrow> 0)"

text \<open>A point that builds nothing, dispatches nothing and leaves all demand unserved.\<close>

definition ex_shed :: "lpvar \<Rightarrow> real" where
  "ex_shed v = (case v of V_u i \<Rightarrow> 4995 / 10000 | _ \<Rightarrow> 0)"

text \<open>
  A solver answer for the sample catalogue of fixed solar and gas over a day hour and a
  night hour, and a solver that finds the program infeasible.
\<close>

definition ex_highs :: "lp_model \<Rightarrow> error + solver_result" where
  "ex_highs m = Inr \<lparr>Status = ''Optimal'', Columns = (\<lambda>v. Some (ex_dispatch v))\<rparr>"

definition ex_highs_infeasible :: "lp_model \<Rightarrow> error + solver_result" where
  "ex_highs_infeasible m = Inr \<lparr>Status = ''Infeasible'', Columns = Map.empty\<rparr>"

text \<open>
  The answer of the solver for fixed solar alone over the sample week: one MW of solar,
  which serves the whole demand of every hour and spills 0.0005 MW.
\<close>

definition ex_week_columns :: "lpvar \<rightharpoonup> real" where
  "ex_week_columns v =
     (case v of
        V_c k \<Rightarrow> (if k = SOLAR then Some 1 else None)
      | V_g k i \<Rightarrow> (if k = SOLAR \<and> i < 168 then Some (4995 / 10000) else None)
      | V_u i \<Rightarrow> (if i < 168 then Some 0 else None)
      | _ \<Rightarrow> None)"

definition ex_highs_week :: "lp_model \<Rightarrow> error + solver_result" where
  "ex_highs_week m = Inr \<lparr>Status = ''Optimal'', Columns = ex_week_columns\<rparr>"

text \<open>A catalogue with nothing enabled, and a solver answer that leaves all demand unserved.\<close>

definition ex_gas_off :: TechDefinition where
  "ex_gas_off = ex_gas\<lparr>enabled := False\<rparr>"

definition ex_highs_shed :: "lp_model \<Rightarrow> error + solver_result" where
  "ex_highs_shed m = Inr \<lparr>Status = ''Optimal'', Columns = (\<lambda>v. Some (ex_shed v))\<rparr>"

text \<open>The sample storage technology financed at a zero discount rate.\<close>

definition ex_battery_free :: TechDefinition where
  "ex_battery_free = ex_battery\<lparr>wacc := 0\<rparr>"

section \<open>Structure of the program\<close>

subsection \<open>The rows of the program\<close>

lemma then_rows_sel [simp]:
  "objR (then_rows a b) = objR a @ objR b"
  "consR (then_rows a b) = consR a @ consR b"
  "varsR (then_rows a b) = varsR a @ varsR b"
  "balR (then_rows a b) = balR a @ balR b"
  by (simp_all add: then_rows_def)

lemma no_rows_sel [simp]:
  "objR no_rows = []" "consR no_rows = []" "varsR no_rows = []" "balR no_rows = []"
  by (simp_all add: no_rows_def)

lemma all_rows_sel:
  "objR (all_rows rs) = concat (map objR rs)"
  "consR (all_rows rs) = concat (map consR rs)"
  "varsR (all_rows rs) = concat (map varsR rs)"
  "balR (all_rows rs) = concat (map balR rs)"
  by (induction rs) (simp_all add: all_rows_def)

lemma set_set_add: "set (set_add seen vs) = set seen \<union> set vs"
  by (induction vs arbitrary: seen) auto

lemma constraints_buildLPModel:
  "constraints (lp (buildLPModel techs dataChunks mr)) =
     concat (map (\<lambda>t. consR (capacityRows t)) (enabledTechs techs))
     @ concat (map (\<lambda>i. consR (hourRows techs (concat dataChunks) i)) [0..<length (concat dataChunks)])
     @ consR (minResRows techs (concat dataChunks) mr)"
  by (simp add: buildLPModel_def Let_def all_rows_sel comp_def)

lemma objective_buildLPModel:
  "objective (lp (buildLPModel techs dataChunks mr)) =
     concat (map (\<lambda>t. objR (capacityRows t)) (enabledTechs techs))
     @ concat (map (\<lambda>i. objR (hourRows techs (concat dataChunks) i)) [0..<length (concat dataChunks)])
     @ objR (minResRows techs (concat dataChunks) mr)"
  by (simp add: buildLPModel_def Let_def all_rows_sel comp_def)

lemma bounds_buildLPModel:
  "set (bounds (lp (buildLPModel techs dataChunks mr))) =
     (\<Union>t \<in> set (enabledTechs techs). set (varsR (capacityRows t)))
     \<union> (\<Union>i \<in> {..<length (concat dataChunks)}. set (varsR (hourRows techs (concat dataChunks) i)))"
  by (auto simp add: buildLPModel_def Let_def all_rows_sel set_set_add minResRows_def)

lemma flatData_buildLPModel [simp]:
  "flatData (buildLPModel techs dataChunks mr) = concat dataChunks"
  by (simp add: buildLPModel_def Let_def)

lemma balR_genRows:
  "concat (map (\<lambda>t. balR (genRows i h t)) ts) =
     map (\<lambda>t. (1, V_g (id_tech t) i)) (filter (\<lambda>t. type_tech t \<noteq> storage) ts)"
  by (induction ts) (simp_all add: genRows_def Let_def)

lemma consR_hourRows:
  "consR (hourRows techs flat i) =
     concat (map (\<lambda>t. consR (genRows i (flat ! i) t)) (enabledTechs techs))
     @ consR (storageRows i (flat ! i) (battTech techs))
     @ [\<lparr>label_of = bal i, lhs = balanceLHS techs i, rel = EQ, rhs = demand (flat ! i)\<rparr>]"
  by (simp add: hourRows_def Let_def all_rows_sel comp_def balR_genRows balanceLHS_def
      storageRows_def unservedRows_def split: option.splits)

lemma hour_row_in_constraints:
  assumes "i < length (concat dataChunks)"
    and "c \<in> set (consR (hourRows techs (concat dataChunks) i))"
  shows "c \<in> set (constraints (lp (buildLPModel techs dataChunks mr)))"
  using assms unfolding constraints_buildLPModel by auto

lemma capacity_row_in_constraints:
  assumes "t \<in> set (enabledTechs techs)"
    and "c \<in> set (consR (capacityRows t))"
  shows "c \<in> set (constraints (lp (buildLPModel techs dataChunks mr)))"
  using assms unfolding constraints_buildLPModel by auto

subsection \<open>Feasible points\<close>

lemma feasible_holds:
  "feasible m x \<Longrightarrow> c \<in> set (constraints m) \<Longrightarrow> holds x c"
  by (simp add: feasible_def list_all_iff)


lemma eval_form_simps [simp]:
  "eval_form x [] = 0"
  "eval_form x ((a, v) # ts) = a * x v + eval_form x ts"
  "eval_form x (ts @ us) = eval_form x ts + eval_form x us"
  by (simp_all add: eval_form_def)

lemma eval_form_unit_terms:
  "eval_form x (map (\<lambda>t. (1, f t)) ts) = (\<Sum>t\<leftarrow>ts. x (f t))"
  by (induction ts) simp_all

lemma profile_of_availability: "profile_of t h = availability (id_tech t) h"
  by (cases "id_tech t") (simp_all add: profile_of_def availability_def Let_def)

lemma gen_row_in_constraints:
  assumes "t \<in> set techs" "enabled t" "i < length (concat dataChunks)"
    and "c \<in> set (consR (genRows i (concat dataChunks ! i) t))"
  shows "c \<in> set (constraints (lp (buildLPModel techs dataChunks mr)))"
proof -
  from assms(1,2) have "t \<in> set (enabledTechs techs)"
    by (simp add: enabledTechs_def)
  with assms(4) have "c \<in> set (consR (hourRows techs (concat dataChunks) i))"
    unfolding consR_hourRows by auto
  with assms(3) show ?thesis
    by (rule hour_row_in_constraints)
qed

lemma gen_var_in_bounds:
  assumes "t \<in> set techs" "enabled t" "i < length (concat dataChunks)" "type_tech t \<noteq> storage"
  shows "V_g (id_tech t) i \<in> set (bounds (lp (buildLPModel techs dataChunks mr)))"
proof -
  from assms(1,2) have "t \<in> set (enabledTechs techs)"
    by (simp add: enabledTechs_def)
  then have "V_g (id_tech t) i \<in> set (varsR (hourRows techs (concat dataChunks) i))"
    using assms(4) by (auto simp add: hourRows_def Let_def all_rows_sel genRows_def)
  with assms(3) show ?thesis
    unfolding bounds_buildLPModel by blast
qed

lemma feasible_bound:
  "feasible m x \<Longrightarrow> v \<in> set (bounds m) \<Longrightarrow> 0 \<le> x v"
  by (simp add: feasible_def list_all_iff)

subsection \<open>Evaluating the program on the samples\<close>

lemmas build_defs =
  buildLPModel_def enabledTechs_def battTech_def all_rows_def then_rows_def no_rows_def
  capacityRows_def hourRows_def genRows_def storageRows_def unservedRows_def minResRows_def
  nonRezGenTerms_def totalAnnualDemand_def profile_of_def getMarginalCost_def num_or_def
  HOURS_IN_WEEK_def BATTERY_C_RATE_def BATTERY_EFF_def VOLL_def Let_def

lemmas ex_defs = ex_solar_def ex_battery_def ex_gas_def ex_hour_def ex_night_def

lemma ex_dispatch_feasible:
  "feasible (lp (buildLPModel [ex_solar, ex_gas] [[ex_hour, ex_night]] 0)) ex_dispatch"
  by (simp add: feasible_def holds_def build_defs ex_defs ex_dispatch_def upt_rec)

subsection \<open>Storage rows and week boundaries\<close>

lemma storage_row_in_constraints:
  assumes "battTech techs = Some b" and "i < length (concat dataChunks)"
    and "c \<in> set (consR (storageRows i (concat dataChunks ! i) (Some b)))"
  shows "c \<in> set (constraints (lp (buildLPModel techs dataChunks mr)))"
proof -
  from assms(1,3) have "c \<in> set (consR (hourRows techs (concat dataChunks) i))"
    unfolding consR_hourRows by simp
  with assms(2) show ?thesis
    by (rule hour_row_in_constraints)
qed

lemma weekStartsFrom_regular:
  assumes "\<forall>w \<in> set ws. length w = n" and "0 < n"
  shows "set (weekStartsFrom k ws) = {k + n * j | j. j < length ws}"
  using assms
proof (induction ws arbitrary: k)
  case Nil
  then show ?case by simp
next
  case (Cons w ws)
  then have w: "w \<noteq> []" "length w = n" by auto
  have "{k + n * j | j. j < Suc (length ws)} = insert k {k + n + n * j | j. j < length ws}"
  proof (intro set_eqI iffI)
    fix a assume "a \<in> {k + n * j | j. j < Suc (length ws)}"
    then obtain j where j: "a = k + n * j" "j < Suc (length ws)" by blast
    show "a \<in> insert k {k + n + n * j | j. j < length ws}"
    proof (cases j)
      case 0
      with j show ?thesis by simp
    next
      case (Suc j')
      with j have "a = k + n + n * j'" "j' < length ws" by simp_all
      then show ?thesis by blast
    qed
  next
    fix a assume "a \<in> insert k {k + n + n * j | j. j < length ws}"
    then consider "a = k" | j where "a = k + n + n * j" "j < length ws" by blast
    then show "a \<in> {k + n * j | j. j < Suc (length ws)}"
    proof cases
      case 1
      then have "a = k + n * 0" "0 < Suc (length ws)" by simp_all
      then show ?thesis by blast
    next
      case 2
      then have "a = k + n * Suc j" "Suc j < Suc (length ws)" by simp_all
      then show ?thesis by blast
    qed
  qed
  with Cons w show ?case by simp
qed

lemma length_concat_regular:
  "\<forall>w \<in> set ws. length w = n \<Longrightarrow> length (concat ws) = n * length ws"
  by (induction ws) simp_all

lemma weekStarts_regular:
  assumes "\<forall>w \<in> set dataChunks. length w = n" and "0 < n" and "i < length (concat dataChunks)"
  shows "i \<in> set (weekStarts dataChunks) \<longleftrightarrow> i mod n = 0"
proof -
  have len: "i < n * length dataChunks"
    using assms(3) length_concat_regular [OF assms(1)] by simp
  have "i \<in> set (weekStarts dataChunks) \<longleftrightarrow> (\<exists>j. i = n * j \<and> j < length dataChunks)"
    unfolding weekStarts_def weekStartsFrom_regular [OF assms(1,2)] by auto
  also have "\<dots> \<longleftrightarrow> i mod n = 0"
  proof
    assume "\<exists>j. i = n * j \<and> j < length dataChunks"
    then show "i mod n = 0" by auto
  next
    assume m: "i mod n = 0"
    then have "i = n * (i div n)" by auto
    moreover have "i div n < length dataChunks"
      using len assms(2) by (simp add: div_less_iff_less_mult mult.commute)
    ultimately show "\<exists>j. i = n * j \<and> j < length dataChunks" by blast
  qed
  finally show ?thesis .
qed

lemma soc_not_in_capacityRows:
  "c \<in> set (consR (capacityRows t)) \<Longrightarrow> V_b_soc k \<notin> snd ` set (lhs c)"
  by (auto simp add: capacityRows_def Let_def split: if_splits)

lemma soc_not_in_genRows:
  "c \<in> set (consR (genRows i h t)) \<Longrightarrow> V_b_soc k \<notin> snd ` set (lhs c)"
  by (auto simp add: genRows_def Let_def split: if_splits)

lemma soc_not_in_balanceLHS: "V_b_soc k \<notin> snd ` set (balanceLHS techs i)"
  by (auto simp add: balanceLHS_def)

lemma soc_not_in_minResRows:
  "c \<in> set (consR (minResRows techs flat mr)) \<Longrightarrow> V_b_soc k \<notin> snd ` set (lhs c)"
  by (auto simp add: minResRows_def nonRezGenTerms_def Let_def split: if_splits)

lemma soc0_in_storageRows:
  assumes "c \<in> set (consR (storageRows i h batt))" and "V_b_soc 0 \<in> snd ` set (lhs c)"
  shows "label_of c = soc_cap 0 \<or> label_of c = soc_dyn 1"
proof (cases batt)
  case None
  with assms show ?thesis by (simp add: storageRows_def)
next
  case (Some b)
  show ?thesis
  proof (cases "i mod HOURS_IN_WEEK \<noteq> 0")
    case True
    then have "i \<noteq> 0" by (auto simp add: HOURS_IN_WEEK_def)
    with assms Some True show ?thesis
      by (auto simp add: storageRows_def Let_def)
  next
    case False
    with assms Some show ?thesis
      by (auto simp add: storageRows_def Let_def split: if_splits)
  qed
qed

lemma soc0_rows:
  assumes "c \<in> set (constraints (lp (buildLPModel techs dataChunks mr)))"
    and "V_b_soc 0 \<in> snd ` set (lhs c)"
  shows "label_of c = soc_cap 0 \<or> label_of c = soc_dyn 1"
proof -
  from assms(1) consider
      t where "c \<in> set (consR (capacityRows t))"
    | i t where "c \<in> set (consR (genRows i (concat dataChunks ! i) t))"
    | i where "c \<in> set (consR (storageRows i (concat dataChunks ! i) (battTech techs)))"
    | i where "c = \<lparr>label_of = bal i, lhs = balanceLHS techs i, rel = EQ,
                     rhs = demand (concat dataChunks ! i)\<rparr>"
    | "c \<in> set (consR (minResRows techs (concat dataChunks) mr))"
    unfolding constraints_buildLPModel consR_hourRows by auto
  then show ?thesis
  proof cases
    case 1
    with assms(2) show ?thesis using soc_not_in_capacityRows by blast
  next
    case 2
    with assms(2) show ?thesis using soc_not_in_genRows by blast
  next
    case 3
    with assms(2) show ?thesis using soc0_in_storageRows by blast
  next
    case 4
    with assms(2) show ?thesis using soc_not_in_balanceLHS [of 0 techs] by simp
  next
    case 5
    with assms(2) show ?thesis using soc_not_in_minResRows by blast
  qed
qed


lemma ex_idle_nonneg: "0 \<le> ex_idle v"
  by (cases v) (simp_all add: ex_idle_def)

lemma ex_idle_feasible:
  "feasible (lp (buildLPModel [ex_battery] [ex_week] 0)) ex_idle"
proof -
  have hour: "holds ex_idle c"
    if "i < 168" "c \<in> set (consR (hourRows [ex_battery] (concat [ex_week]) i))" for i c
  proof -
    have h: "concat [ex_week] ! i = ex_hour"
      using that(1) by (simp add: ex_week_def)
    have b: "battTech [ex_battery] = Some ex_battery" "enabledTechs [ex_battery] = [ex_battery]"
      "type_tech ex_battery = storage"
      by (simp_all add: battTech_def enabledTechs_def ex_battery_def)
    have first: "0 < i \<Longrightarrow> \<not> HOURS_IN_WEEK dvd i"
      using that(1) by (auto simp add: HOURS_IN_WEEK_def dest: dvd_imp_le)
    from that(2) first show ?thesis
      unfolding consR_hourRows h b
      by (auto simp add: genRows_def storageRows_def balanceLHS_def b holds_def ex_idle_def
          ex_hour_def Let_def BATTERY_C_RATE_def BATTERY_EFF_def split: if_splits)
  qed
  have cap: "consR (capacityRows ex_battery) = []"
    by (simp add: capacityRows_def ex_battery_def)
  have "holds ex_idle c" if "c \<in> set (constraints (lp (buildLPModel [ex_battery] [ex_week] 0)))" for c
    using that hour
    by (auto simp add: constraints_buildLPModel enabledTechs_def ex_battery_def [THEN arg_cong, of enabled]
        cap minResRows_def ex_week_def)
  then show ?thesis
    by (simp add: feasible_def list_all_iff ex_idle_nonneg)
qed


lemma ex_shed_nonneg: "0 \<le> ex_shed v"
  by (cases v) (simp_all add: ex_shed_def)

lemma ex_shed_feasible:
  "feasible (lp (buildLPModel [ex_battery] [ex_week, ex_week] 0)) ex_shed"
proof -
  have hour: "holds ex_shed c"
    if "i < 336" "c \<in> set (consR (hourRows [ex_battery] (concat [ex_week, ex_week]) i))" for i c
  proof -
    have h: "concat [ex_week, ex_week] ! i = ex_hour"
      using that(1) by (simp add: ex_week_def nth_append)
    have b: "battTech [ex_battery] = Some ex_battery" "enabledTechs [ex_battery] = [ex_battery]"
      "type_tech ex_battery = storage"
      by (simp_all add: battTech_def enabledTechs_def ex_battery_def)
    from that(2) show ?thesis
      unfolding consR_hourRows h b
      by (auto simp add: genRows_def storageRows_def balanceLHS_def b holds_def ex_shed_def
          ex_hour_def Let_def BATTERY_C_RATE_def BATTERY_EFF_def split: if_splits)
  qed
  have cap: "consR (capacityRows ex_battery) = []"
    by (simp add: capacityRows_def ex_battery_def)
  have "holds ex_shed c"
    if "c \<in> set (constraints (lp (buildLPModel [ex_battery] [ex_week, ex_week] 0)))" for c
    using that hour
    by (auto simp add: constraints_buildLPModel enabledTechs_def ex_battery_def [THEN arg_cong, of enabled]
        cap minResRows_def ex_week_def)
  then show ?thesis
    by (simp add: feasible_def list_all_iff ex_shed_nonneg)
qed

subsection \<open>The minimum-renewables row\<close>

lemma eval_form_concat:
  "eval_form x (concat (map f ts)) = (\<Sum>t\<leftarrow>ts. eval_form x (f t))"
  by (induction ts) simp_all

lemma eval_form_stat_hours:
  "eval_form x (concat (map (\<lambda>i. if p i then [(w i, v i)] else []) js))
     = (\<Sum>i\<leftarrow>filter p js. w i * x (v i))"
  by (induction js) simp_all

lemma eval_form_nonRez_techs:
  "eval_form x (concat (map
       (\<lambda>tech.
          if type_tech tech \<noteq> renewable \<and> type_tech tech \<noteq> storage then
            concat (map
              (\<lambda>i. let row = flat ! i in
                    if includeInStats row then [(weight row, V_g (id_tech tech) i)] else [])
              js)
          else [])
       ts)) =
     (\<Sum>t\<leftarrow>filter (\<lambda>t. type_tech t \<noteq> renewable \<and> type_tech t \<noteq> storage) ts.
        \<Sum>i\<leftarrow>filter (\<lambda>i. includeInStats (flat ! i)) js.
          weight (flat ! i) * x (V_g (id_tech t) i))"
  by (induction ts) (simp_all add: Let_def eval_form_stat_hours)

lemma eval_form_nonRezGenTerms:
  "eval_form x (nonRezGenTerms techs flat) =
     (\<Sum>t\<leftarrow>filter (\<lambda>t. type_tech t \<noteq> renewable \<and> type_tech t \<noteq> storage) (enabledTechs techs).
        \<Sum>i\<leftarrow>filter (\<lambda>i. includeInStats (flat ! i)) [0..<length flat].
          weight (flat ! i) * x (V_g (id_tech t) i))"
  unfolding nonRezGenTerms_def by (rule eval_form_nonRez_techs)

lemma min_res_row_in_constraints:
  assumes "0 < mr" and "nonRezGenTerms techs (concat dataChunks) \<noteq> []"
  shows "\<lparr>label_of = min_res_global, lhs = nonRezGenTerms techs (concat dataChunks), rel = LE,
          rhs = totalAnnualDemand (concat dataChunks) * (1 - mr / 100)\<rparr>
         \<in> set (constraints (lp (buildLPModel techs dataChunks mr)))"
  using assms by (simp add: constraints_buildLPModel minResRows_def Let_def)


lemma ex_nonRez:
  "nonRezGenTerms [ex_solar, ex_gas] [ex_hour, ex_night] = [(13, V_g GAS_CCGT 0), (13, V_g GAS_CCGT 1)]"
  by (simp add: nonRezGenTerms_def enabledTechs_def ex_defs upt_rec Let_def)

lemma ex_dispatch_feasible_half:
  "feasible (lp (buildLPModel [ex_solar, ex_gas] [[ex_hour, ex_night]] 50)) ex_dispatch"
proof -
  have "holds ex_dispatch \<lparr>label_of = min_res_global, lhs = nonRezGenTerms [ex_solar, ex_gas] [ex_hour, ex_night],
       rel = LE, rhs = totalAnnualDemand [ex_hour, ex_night] * (1 - 50 / 100)\<rparr>"
    unfolding ex_nonRez by (simp add: holds_def totalAnnualDemand_def ex_hour_def ex_night_def ex_dispatch_def)
  moreover have "constraints (lp (buildLPModel [ex_solar, ex_gas] [[ex_hour, ex_night]] 50))
      = constraints (lp (buildLPModel [ex_solar, ex_gas] [[ex_hour, ex_night]] 0))
        @ [\<lparr>label_of = min_res_global, lhs = nonRezGenTerms [ex_solar, ex_gas] [ex_hour, ex_night],
       rel = LE, rhs = totalAnnualDemand [ex_hour, ex_night] * (1 - 50 / 100)\<rparr>]"
    unfolding constraints_buildLPModel minResRows_def by (simp add: ex_nonRez)
  moreover have "bounds (lp (buildLPModel [ex_solar, ex_gas] [[ex_hour, ex_night]] 50))
      = bounds (lp (buildLPModel [ex_solar, ex_gas] [[ex_hour, ex_night]] 0))"
    by (simp add: buildLPModel_def Let_def minResRows_def)
  ultimately show ?thesis
    using ex_dispatch_feasible by (simp add: feasible_def)
qed

subsection \<open>The extracted result\<close>

lemma optimize_optimal:
  assumes "solve (lp (buildLPModel techs dataChunks mr)) = Inr res" and "Status res = ''Optimal''"
  shows "optimizeWithHiGHS solve techs dataChunks mr =
     Inr \<lparr>hourly = hourlyResults techs (Columns res) (capacities_of techs (Columns res))
                      (concat dataChunks),
          totalCost = totalFixedCost techs (capacities_of techs (Columns res))
                      + totalVariableCost techs (Columns res) (concat dataChunks),
          lcoe = (totalFixedCost techs (capacities_of techs (Columns res))
                   + totalVariableCost techs (Columns res) (concat dataChunks))
                 / max (1 / 10) (annualDemand (concat dataChunks)
                                  - annualUnserved (Columns res) (concat dataChunks)),
          totalCo2 = totalCo2_of techs (Columns res) (concat dataChunks),
          mix = mix_of techs (Columns res) (concat dataChunks),
          capacities = capacities_of techs (Columns res),
          unservedEnergy = annualUnserved (Columns res) (concat dataChunks),
          annualServed = max (1 / 10) (annualDemand (concat dataChunks)
                                        - annualUnserved (Columns res) (concat dataChunks))\<rparr>"
  using assms by (simp add: optimizeWithHiGHS_def Let_def)

lemma capacities_fold_other:
  "k \<notin> id_tech ` set ts \<Longrightarrow>
   fold (\<lambda>t caps.
           if type_tech t = storage then caps(id_tech t \<mapsto> primal solution (V_e (id_tech t)))
           else caps(id_tech t \<mapsto> primal solution (V_c (id_tech t)))) ts m k = m k"
  by (induction ts arbitrary: m) auto

lemma capacities_fold_distinct:
  assumes "distinct (map id_tech ts)" and "t \<in> set ts"
  shows "fold (\<lambda>t caps.
           if type_tech t = storage then caps(id_tech t \<mapsto> primal solution (V_e (id_tech t)))
           else caps(id_tech t \<mapsto> primal solution (V_c (id_tech t)))) ts m (id_tech t)
         = Some (primal solution (if type_tech t = storage then V_e (id_tech t) else V_c (id_tech t)))"
  using assms
proof (induction ts arbitrary: m)
  case Nil
  then show ?case by simp
next
  case (Cons a ts)
  show ?case
  proof (cases "t = a")
    case True
    from Cons.prems(1) have "id_tech a \<notin> id_tech ` set ts" by simp
    with True show ?thesis
      by (simp add: capacities_fold_other)
  next
    case False
    with Cons.prems have "distinct (map id_tech ts)" "t \<in> set ts" by simp_all
    then show ?thesis
      by (simp add: Cons.IH)
  qed
qed

lemma capacities_of_distinct:
  assumes "distinct (map id_tech (enabledTechs techs))" and "t \<in> set techs" and "enabled t"
  shows "capacities_of techs solution (id_tech t)
         = Some (primal solution (if type_tech t = storage then V_e (id_tech t) else V_c (id_tech t)))"
proof -
  from assms(2,3) have "t \<in> set (enabledTechs techs)"
    by (simp add: enabledTechs_def)
  with assms(1) show ?thesis
    unfolding capacities_of_def by (rule capacities_fold_distinct)
qed

lemma ex_highs_primal: "primal (\<lambda>v. Some (ex_dispatch v)) = ex_dispatch"
  by (rule ext) (simp add: primal_def)

lemma curtailment_fold:
  "fold (curtailmentStep solution caps row i) ts a =
     a + (\<Sum>t\<leftarrow>filter (\<lambda>t. type_tech t = renewable) ts.
            if primal solution (V_g (id_tech t) i) + 1 / 1000
                 < entry_or0 caps (id_tech t) * availability (id_tech t) row
            then entry_or0 caps (id_tech t) * availability (id_tech t) row
                 - primal solution (V_g (id_tech t) i)
            else 0)"
  by (induction ts arbitrary: a)
    (simp_all add: curtailmentStep_def Let_def profile_of_availability)

lemma optimize_optimal_fields:
  assumes "solve (lp (buildLPModel techs dataChunks mr)) = Inr res" and "Status res = ''Optimal''"
  obtains r where "optimizeWithHiGHS solve techs dataChunks mr = Inr r"
    and "hourly r = hourlyResults techs (Columns res) (capacities_of techs (Columns res))
                      (concat dataChunks)"
    and "capacities r = capacities_of techs (Columns res)"
    and "totalCost r = totalFixedCost techs (capacities_of techs (Columns res))
                      + totalVariableCost techs (Columns res) (concat dataChunks)"
    and "unservedEnergy r = annualUnserved (Columns res) (concat dataChunks)"
    and "annualServed r = max (1 / 10) (annualDemand (concat dataChunks) - unservedEnergy r)"
    and "lcoe r = totalCost r / annualServed r"
  using optimize_optimal [where solve = solve and res = res, OF assms] by simp

lemma hourlyResults_nth:
  "i < length flat \<Longrightarrow> hourlyResults techs solution caps flat ! i = hourResult techs solution caps flat i"
  by (simp add: hourlyResults_def)

lemma ex_week_columns_nonneg: "0 \<le> primal ex_week_columns v"
  by (cases v) (simp_all add: primal_def ex_week_columns_def)

lemma ex_week_columns_feasible:
  "feasible (lp (buildLPModel [ex_solar] [ex_week] 0)) (primal ex_week_columns)"
proof -
  have en: "enabledTechs [ex_solar] = [ex_solar]" "battTech [ex_solar] = None"
    "type_tech ex_solar = renewable" "id_tech ex_solar = SOLAR"
    by (simp_all add: battTech_def enabledTechs_def ex_solar_def)
  have hour: "holds (primal ex_week_columns) c"
    if "i < 168" "c \<in> set (consR (hourRows [ex_solar] (concat [ex_week]) i))" for i c
  proof -
    have h: "concat [ex_week] ! i = ex_hour"
      using that(1) by (simp add: ex_week_def)
    from that show ?thesis
      unfolding consR_hourRows h en
      by (auto simp add: genRows_def storageRows_def balanceLHS_def en holds_def primal_def
          ex_week_columns_def ex_hour_def profile_of_def Let_def)
  qed
  have cap: "holds (primal ex_week_columns) c" if "c \<in> set (consR (capacityRows ex_solar))" for c
    using that
    by (simp add: capacityRows_def ex_solar_def num_or_def holds_def primal_def ex_week_columns_def)
  have "holds (primal ex_week_columns) c"
    if "c \<in> set (constraints (lp (buildLPModel [ex_solar] [ex_week] 0)))" for c
    using that hour cap
    by (auto simp add: constraints_buildLPModel en minResRows_def ex_week_def)
  then show ?thesis
    by (simp add: feasible_def list_all_iff ex_week_columns_nonneg)
qed

lemma fold_stat_sum:
  "fold (\<lambda>x acc. if p x then acc + f x else acc) xs (a::real) = a + (\<Sum>x\<leftarrow>filter p xs. f x)"
  by (induction xs arbitrary: a) simp_all

lemma annualDemand_sum:
  "annualDemand flat = (\<Sum>h\<leftarrow>filter includeInStats flat. demand h * weight h)"
  by (simp add: annualDemand_def fold_stat_sum)

lemma annualUnserved_sum:
  "annualUnserved solution flat =
     (\<Sum>i\<leftarrow>filter (\<lambda>i. includeInStats (flat ! i)) [0..<length flat].
        primal solution (V_u i) * weight (flat ! i))"
  by (simp add: annualUnserved_def fold_stat_sum)

lemma sum_over_positions:
  "(\<Sum>i\<leftarrow>filter (\<lambda>i. p (xs ! i)) [0..<length xs]. f (xs ! i)) = (\<Sum>x\<leftarrow>filter p xs. f x)"
proof -
  have "filter p xs = filter p (map ((!) xs) [0..<length xs])"
    by (simp add: map_nth)
  also have "\<dots> = map ((!) xs) (filter (\<lambda>i. p (xs ! i)) [0..<length xs])"
    by (simp add: filter_map comp_def)
  finally show ?thesis
    by (simp add: comp_def)
qed

lemma unserved_is_demand:
  assumes "enabledTechs techs = []" and "feasible (lp (buildLPModel techs dataChunks mr)) x"
    and "i < length (concat dataChunks)"
  shows "x (V_u i) = demand (concat dataChunks ! i)"
proof -
  have "\<lparr>label_of = bal i, lhs = balanceLHS techs i, rel = EQ,
         rhs = demand (concat dataChunks ! i)\<rparr>
        \<in> set (consR (hourRows techs (concat dataChunks) i))"
    by (simp add: consR_hourRows)
  with assms(3) have "\<lparr>label_of = bal i, lhs = balanceLHS techs i, rel = EQ,
         rhs = demand (concat dataChunks ! i)\<rparr>
        \<in> set (constraints (lp (buildLPModel techs dataChunks mr)))"
    by (rule hour_row_in_constraints)
  from feasible_holds [OF assms(2) this] show ?thesis
    by (simp add: holds_def balanceLHS_def battTech_def assms(1))
qed

lemma totalVariableCost_no_techs:
  assumes "enabledTechs techs = []"
  shows "totalVariableCost techs solution flat =
     (\<Sum>i\<leftarrow>filter (\<lambda>i. includeInStats (flat ! i)) [0..<length flat].
        primal solution (V_u i) * 20000000 * weight (flat ! i))"
proof -
  have "variableCostStep techs solution flat =
      (\<lambda>i acc. if includeInStats (flat ! i)
                 then acc + primal solution (V_u i) * 20000000 * weight (flat ! i) else acc)"
    by (intro ext) (simp add: variableCostStep_def Let_def assms battTech_def)
  then show ?thesis
    by (simp add: totalVariableCost_def fold_stat_sum)
qed

lemma ex_shed_primal: "primal (\<lambda>v. Some (ex_shed v)) = ex_shed"
  by (rule ext) (simp add: primal_def)

lemma ex_shed_feasible_no_techs:
  "feasible (lp (buildLPModel [ex_gas_off] [[ex_hour, ex_night]] 0)) ex_shed"
  by (simp add: feasible_def holds_def build_defs ex_defs ex_gas_off_def ex_shed_def upt_rec)

lemma capacity_term_in_objective:
  assumes "t \<in> set techs" and "enabled t" and "a \<in> set (objR (capacityRows t))"
  shows "a \<in> set (objective (lp (buildLPModel techs dataChunks mr)))"
proof -
  from assms(1,2) have "t \<in> set (enabledTechs techs)"
    by (simp add: enabledTechs_def)
  with assms(3) show ?thesis
    unfolding objective_buildLPModel by auto
qed

lemma ex_week_objective:
  "eval_form x (objective (lp (buildLPModel [ex_solar] [ex_week] 0))) =
     getAnnualFixedCost ex_solar * 1000 * x (V_c SOLAR)
     + (\<Sum>i\<leftarrow>[0..<168]. 260000000 * x (V_u i))"
proof -
  have en: "enabledTechs [ex_solar] = [ex_solar]" "battTech [ex_solar] = None"
    "type_tech ex_solar = renewable" "id_tech ex_solar = SOLAR" "getMarginalCost ex_solar = 0"
    by (simp_all add: battTech_def enabledTechs_def ex_solar_def getMarginalCost_def)
  have hour: "objR (hourRows [ex_solar] ex_week i) = [(260000000, V_u i)]"
    if "i < 168" for i
  proof -
    have h: "ex_week ! i = ex_hour"
      using that by (simp add: ex_week_def)
    show ?thesis
      unfolding hourRows_def Let_def h en
      by (simp add: all_rows_sel genRows_def storageRows_def unservedRows_def en VOLL_def
          ex_hour_def Let_def)
  qed
  have "map (\<lambda>i. objR (hourRows [ex_solar] ex_week i)) [0..<168]
      = map (\<lambda>i. [(260000000, V_u i)]) [0..<168]"
    by (rule map_cong) (simp_all add: hour)
  moreover have "length ex_week = 168"
    by (simp add: ex_week_def)
  ultimately have "concat (map (\<lambda>i. objR (hourRows [ex_solar] ex_week i)) [0..<length ex_week])
      = concat (map (\<lambda>i. [(260000000, V_u i)]) [0..<168])"
    by (simp only:)
  moreover have "eval_form x (concat (map (\<lambda>i. [(260000000, V_u i)]) [0..<168]))
      = (\<Sum>i\<leftarrow>[0..<168]. 260000000 * x (V_u i))"
    unfolding eval_form_concat by simp
  moreover have "concat [ex_week] = ex_week"
    by simp
  ultimately show ?thesis
    unfolding objective_buildLPModel en
    by (simp add: capacityRows_def en minResRows_def Let_def)
qed

lemma ex_week_columns_optimal:
  assumes "feasible (lp (buildLPModel [ex_solar] [ex_week] 0)) x"
  shows "eval_form (primal ex_week_columns) (objective (lp (buildLPModel [ex_solar] [ex_week] 0)))
         \<le> eval_form x (objective (lp (buildLPModel [ex_solar] [ex_week] 0)))"
proof -
  have s: "ex_solar \<in> set [ex_solar]" "enabled ex_solar" "isFixed ex_solar"
    "type_tech ex_solar = renewable" "id_tech ex_solar = SOLAR"
    "num_or (fixedCapacity ex_solar) 0 * 1000 = 1"
    by (simp_all add: ex_solar_def num_or_def)
  have "\<lparr>label_of = fix_c SOLAR, lhs = [(1, V_c SOLAR)], rel = EQ, rhs = 1\<rparr>
      \<in> set (constraints (lp (buildLPModel [ex_solar] [ex_week] 0)))"
    by (rule capacity_row_in_constraints [of ex_solar])
      (simp_all add: enabledTechs_def capacityRows_def s)
  from feasible_holds [OF assms this] have c: "x (V_c SOLAR) = 1"
    by (simp add: holds_def)
  have u: "0 \<le> x (V_u i)" if "i < 168" for i
  proof -
    have "V_u i \<in> set (varsR (hourRows [ex_solar] (concat [ex_week]) i))"
      by (simp add: hourRows_def Let_def unservedRows_def)
    with that have "V_u i \<in> set (bounds (lp (buildLPModel [ex_solar] [ex_week] 0)))"
      unfolding bounds_buildLPModel by (auto simp add: ex_week_def)
    with assms show ?thesis by (rule feasible_bound)
  qed
  have "0 \<le> (\<Sum>i\<leftarrow>[0..<168]. 260000000 * x (V_u i))"
    by (rule sum_list_nonneg) (auto simp add: u)
  moreover have "(\<Sum>i\<leftarrow>[0..<168]. 260000000 * primal ex_week_columns (V_u i)) = 0"
  proof -
    have "map (\<lambda>i. 260000000 * primal ex_week_columns (V_u i)) [0..<168]
        = map (\<lambda>i. 0) [0..<168]"
      by (rule map_cong) (simp_all add: primal_def ex_week_columns_def)
    then show ?thesis by (simp only: sum_list_0)
  qed
  moreover have "primal ex_week_columns (V_c SOLAR) = 1"
    by (simp add: primal_def ex_week_columns_def)
  ultimately show ?thesis
    unfolding ex_week_objective by (simp add: c)
qed

section \<open>Properties\<close>

subsection \<open>Hourly balance\<close>

text \<open>
  C1. For every hour of the concatenated timeline the program has an equality row
  \<open>bal_i\<close>: the generation of the enabled non-storage technologies at that hour, plus the
  storage discharge, minus the storage charge (both present exactly when a storage
  technology is enabled), plus the unserved energy, equals the demand of the hour.
\<close>

theorem balance_row_every_hour:
  assumes "i < length (concat dataChunks)"
  shows "\<exists>c. c \<in> set (constraints (lp (buildLPModel techs dataChunks minRenewables)))
           \<and> label_of c = bal i \<and> rel c = EQ \<and> rhs c = demand (concat dataChunks ! i)
           \<and> (\<forall>x. eval_form x (lhs c) =
                  (\<Sum>t\<leftarrow>filter (\<lambda>t. type_tech t \<noteq> storage) (enabledTechs techs).
                      x (V_g (id_tech t) i))
                  + (if battTech techs \<noteq> None then x (V_b_dis i) - x (V_b_ch i) else 0)
                  + x (V_u i))"
proof -
  let ?c = "\<lparr>label_of = bal i, lhs = balanceLHS techs i, rel = EQ,
             rhs = demand (concat dataChunks ! i)\<rparr>"
  have "?c \<in> set (consR (hourRows techs (concat dataChunks) i))"
    by (simp add: consR_hourRows)
  then have "?c \<in> set (constraints (lp (buildLPModel techs dataChunks minRenewables)))"
    using assms by (rule hour_row_in_constraints [rotated])
  moreover have "eval_form x (lhs ?c) =
      (\<Sum>t\<leftarrow>filter (\<lambda>t. type_tech t \<noteq> storage) (enabledTechs techs). x (V_g (id_tech t) i))
      + (if battTech techs \<noteq> None then x (V_b_dis i) - x (V_b_ch i) else 0) + x (V_u i)" for x
    by (simp add: balanceLHS_def eval_form_unit_terms)
  ultimately show ?thesis
    by (intro exI [of _ ?c]) simp
qed

theorem balance_row_every_hour_witness:
  "1 < length (concat [[ex_hour, ex_hour]])
   \<and> (\<exists>c. c \<in> set (constraints (lp (buildLPModel [ex_solar, ex_battery] [[ex_hour, ex_hour]] 0)))
           \<and> label_of c = bal 1 \<and> rel c = EQ \<and> rhs c = 4995 / 10000
           \<and> (\<forall>x. eval_form x (lhs c) = x (V_g SOLAR 1) + (x (V_b_dis 1) - x (V_b_ch 1)) + x (V_u 1)))"
  using balance_row_every_hour [of 1 "[[ex_hour, ex_hour]]" "[ex_solar, ex_battery]" 0]
  by (simp add: enabledTechs_def battTech_def ex_solar_def ex_battery_def ex_hour_def)

subsection \<open>Storage dynamics\<close>

text \<open>
  C2, as the claim states it, fails at the first hour of the first week: with one week of
  168 hours and a storage technology enabled, keeping the storage full and idle is feasible,
  although the state of charge of hour 0 is then not 0.9 times the charge minus the
  discharge of that hour.
\<close>

theorem storage_reset_counterexample:
  "battTech [ex_battery] = Some ex_battery
   \<and> 0 \<in> set (weekStarts [ex_week])
   \<and> feasible (lp (buildLPModel [ex_battery] [ex_week] 0)) ex_idle
   \<and> ex_idle (V_b_soc 0) \<noteq> 9 / 10 * ex_idle (V_b_ch 0) - ex_idle (V_b_dis 0)"
  using ex_idle_feasible
  by (simp add: battTech_def enabledTechs_def ex_battery_def weekStarts_def ex_week_def
      ex_idle_def)

text \<open>
  C2, amended. Hours are counted along the concatenated timeline, and a week boundary is
  an index divisible by 168, which is the first hour of a week when every week has 168
  hours. With a storage technology enabled, every hour \<open>i\<close> off a boundary has the equality
  row \<open>soc_dyn_i\<close>: soc(i) = soc(i - 1) + 0.9 charge(i) - discharge(i). Every boundary hour
  after hour 0 has the equality row \<open>soc_start_i\<close>: soc(i) = 0.9 charge(i) - discharge(i),
  which resets the state of charge instead of closing a weekly cycle. Hour 0 has no dynamics
  row: its state of charge occurs only in its capacity row and in the dynamics row of hour 1.
\<close>

theorem storage_dynamics_rows:
  assumes "battTech techs = Some b" and "i < length (concat dataChunks)"
  shows
    "(i mod 168 \<noteq> 0 \<longrightarrow>
        \<lparr>label_of = soc_dyn i,
         lhs = [(1, V_b_soc i), (- 1, V_b_soc (i - 1)), (- (9 / 10), V_b_ch i), (1, V_b_dis i)],
         rel = EQ, rhs = 0\<rparr>
        \<in> set (constraints (lp (buildLPModel techs dataChunks minRenewables))))
     \<and> (i mod 168 = 0 \<and> 0 < i \<longrightarrow>
        \<lparr>label_of = soc_start i,
         lhs = [(1, V_b_soc i), (- (9 / 10), V_b_ch i), (1, V_b_dis i)],
         rel = EQ, rhs = 0\<rparr>
        \<in> set (constraints (lp (buildLPModel techs dataChunks minRenewables))))
     \<and> (\<forall>x. feasible (lp (buildLPModel techs dataChunks minRenewables)) x \<longrightarrow>
          (if i mod 168 \<noteq> 0
           then x (V_b_soc i) = x (V_b_soc (i - 1)) + 9 / 10 * x (V_b_ch i) - x (V_b_dis i)
           else 0 < i \<longrightarrow> x (V_b_soc i) = 9 / 10 * x (V_b_ch i) - x (V_b_dis i)))
     \<and> (\<forall>c \<in> set (constraints (lp (buildLPModel techs dataChunks minRenewables))).
          V_b_soc 0 \<in> snd ` set (lhs c) \<longrightarrow> label_of c = soc_cap 0 \<or> label_of c = soc_dyn 1)
     \<and> ((\<forall>w \<in> set dataChunks. length w = 168) \<longrightarrow>
          (i \<in> set (weekStarts dataChunks) \<longleftrightarrow> i mod 168 = 0))"
proof -
  let ?m = "lp (buildLPModel techs dataChunks minRenewables)"
  let ?dyn = "\<lparr>label_of = soc_dyn i,
         lhs = [(1, V_b_soc i), (- 1, V_b_soc (i - 1)), (- (9 / 10), V_b_ch i), (1, V_b_dis i)],
         rel = EQ, rhs = 0\<rparr>"
  let ?start = "\<lparr>label_of = soc_start i,
         lhs = [(1, V_b_soc i), (- (9 / 10), V_b_ch i), (1, V_b_dis i)], rel = EQ, rhs = 0\<rparr>"
  note mem = storage_row_in_constraints [OF assms, of _ minRenewables]
  have dyn: "?dyn \<in> set (constraints ?m)" if "i mod 168 \<noteq> 0"
    using that
    by (intro mem) (simp add: storageRows_def Let_def HOURS_IN_WEEK_def BATTERY_EFF_def)
  have start: "?start \<in> set (constraints ?m)" if "i mod 168 = 0" "0 < i"
    using that
    by (intro mem) (simp add: storageRows_def Let_def HOURS_IN_WEEK_def BATTERY_EFF_def)
  have sem: "\<forall>x. feasible ?m x \<longrightarrow> (if i mod 168 \<noteq> 0
           then x (V_b_soc i) = x (V_b_soc (i - 1)) + 9 / 10 * x (V_b_ch i) - x (V_b_dis i)
           else 0 < i \<longrightarrow> x (V_b_soc i) = 9 / 10 * x (V_b_ch i) - x (V_b_dis i))"
  proof (intro allI impI)
  fix x assume feas: "feasible ?m x"
  show "if i mod 168 \<noteq> 0
           then x (V_b_soc i) = x (V_b_soc (i - 1)) + 9 / 10 * x (V_b_ch i) - x (V_b_dis i)
           else 0 < i \<longrightarrow> x (V_b_soc i) = 9 / 10 * x (V_b_ch i) - x (V_b_dis i)"
  proof (cases "i mod 168 \<noteq> 0")
    case True
    from feasible_holds [OF feas dyn [OF True]] True show ?thesis
      by (simp add: holds_def)
  next
    case False
    then have z: "i mod 168 = 0" by simp
    show ?thesis
    proof (cases "0 < i")
      case True
      from feasible_holds [OF feas start [OF z True]] z show ?thesis
        by (simp add: holds_def)
    next
      case False
      with z show ?thesis by simp
    qed
  qed
  qed
  have only: "\<forall>c \<in> set (constraints ?m).
      V_b_soc 0 \<in> snd ` set (lhs c) \<longrightarrow> label_of c = soc_cap 0 \<or> label_of c = soc_dyn 1"
    using soc0_rows by blast
  have weeks: "(\<forall>w \<in> set dataChunks. length w = 168) \<longrightarrow>
      (i \<in> set (weekStarts dataChunks) \<longleftrightarrow> i mod 168 = 0)"
    using weekStarts_regular [OF _ _ assms(2), of 168] by simp
  have dyn': "i mod 168 \<noteq> 0 \<longrightarrow> ?dyn \<in> set (constraints ?m)"
    using dyn by simp
  have start': "i mod 168 = 0 \<and> 0 < i \<longrightarrow> ?start \<in> set (constraints ?m)"
    using start by simp
  show ?thesis
    by (intro conjI) (rule dyn' start' sem only weeks)+
qed

theorem storage_dynamics_rows_witness:
  "battTech [ex_battery] = Some ex_battery
   \<and> 1 < length (concat [ex_week, ex_week]) \<and> 168 < length (concat [ex_week, ex_week])
   \<and> \<lparr>label_of = soc_dyn 1,
       lhs = [(1, V_b_soc 1), (- 1, V_b_soc 0), (- (9 / 10), V_b_ch 1), (1, V_b_dis 1)],
       rel = EQ, rhs = 0\<rparr>
      \<in> set (constraints (lp (buildLPModel [ex_battery] [ex_week, ex_week] 0)))
   \<and> \<lparr>label_of = soc_start 168,
       lhs = [(1, V_b_soc 168), (- (9 / 10), V_b_ch 168), (1, V_b_dis 168)],
       rel = EQ, rhs = 0\<rparr>
      \<in> set (constraints (lp (buildLPModel [ex_battery] [ex_week, ex_week] 0)))
   \<and> feasible (lp (buildLPModel [ex_battery] [ex_week, ex_week] 0)) ex_shed
   \<and> ex_shed (V_b_soc 1) = ex_shed (V_b_soc 0) + 9 / 10 * ex_shed (V_b_ch 1) - ex_shed (V_b_dis 1)
   \<and> ex_shed (V_b_soc 168) = 9 / 10 * ex_shed (V_b_ch 168) - ex_shed (V_b_dis 168)
   \<and> 168 \<in> set (weekStarts [ex_week, ex_week]) \<and> 1 \<notin> set (weekStarts [ex_week, ex_week])"
proof -
  have b: "battTech [ex_battery] = Some ex_battery"
    by (simp add: battTech_def enabledTechs_def ex_battery_def)
  have l1: "1 < length (concat [ex_week, ex_week])"
    and l168: "168 < length (concat [ex_week, ex_week])"
    and reg: "\<forall>w \<in> set [ex_week, ex_week]. length w = 168"
    by (simp_all add: ex_week_def)
  show ?thesis
    using storage_dynamics_rows [OF b l1, of 0] storage_dynamics_rows [OF b l168, of 0]
      ex_shed_feasible b l1 l168 reg
    by simp
qed

subsection \<open>Capacity link\<close>

text \<open>
  C3. For every enabled renewable technology and every hour the program has the row
  \<open>cap\<close>: generation minus availability times capacity is at most 0 when the availability
  (the hour's solar, wind or offshore factor, by the technology) exceeds 0.001, and
  generation is at most 0, hence 0 by its bound, when the availability is at most 0.001.
  For every enabled dispatchable or baseload technology and every hour it has the row
  generation minus capacity at most 0. Every feasible point satisfies them.
\<close>

theorem capacity_link_rows:
  assumes "t \<in> set techs" and "enabled t" and "i < length (concat dataChunks)"
  shows
    "(type_tech t = renewable \<and> 1 / 1000 < availability (id_tech t) (concat dataChunks ! i) \<longrightarrow>
        \<lparr>label_of = cap (id_tech t) i,
         lhs = [(1, V_g (id_tech t) i),
                (- availability (id_tech t) (concat dataChunks ! i), V_c (id_tech t))],
         rel = LE, rhs = 0\<rparr>
        \<in> set (constraints (lp (buildLPModel techs dataChunks minRenewables))))
     \<and> (type_tech t = renewable \<and> availability (id_tech t) (concat dataChunks ! i) \<le> 1 / 1000 \<longrightarrow>
        \<lparr>label_of = cap (id_tech t) i, lhs = [(1, V_g (id_tech t) i)], rel = LE, rhs = 0\<rparr>
        \<in> set (constraints (lp (buildLPModel techs dataChunks minRenewables)))
        \<and> V_g (id_tech t) i \<in> set (bounds (lp (buildLPModel techs dataChunks minRenewables))))
     \<and> (type_tech t = dispatchable \<or> type_tech t = baseload \<longrightarrow>
        \<lparr>label_of = cap (id_tech t) i,
         lhs = [(1, V_g (id_tech t) i), (- 1, V_c (id_tech t))], rel = LE, rhs = 0\<rparr>
        \<in> set (constraints (lp (buildLPModel techs dataChunks minRenewables))))
     \<and> (\<forall>x. feasible (lp (buildLPModel techs dataChunks minRenewables)) x \<longrightarrow>
          (case type_tech t of
             renewable \<Rightarrow>
               if 1 / 1000 < availability (id_tech t) (concat dataChunks ! i)
               then x (V_g (id_tech t) i)
                      - availability (id_tech t) (concat dataChunks ! i) * x (V_c (id_tech t)) \<le> 0
               else x (V_g (id_tech t) i) = 0
           | storage \<Rightarrow> True
           | _ \<Rightarrow> x (V_g (id_tech t) i) - x (V_c (id_tech t)) \<le> 0))"
proof -
  let ?m = "lp (buildLPModel techs dataChunks minRenewables)"
  let ?h = "concat dataChunks ! i"
  let ?a = "availability (id_tech t) ?h"
  let ?g = "V_g (id_tech t) i"
  let ?on = "\<lparr>label_of = cap (id_tech t) i, lhs = [(1, ?g), (- ?a, V_c (id_tech t))],
              rel = LE, rhs = 0\<rparr>"
  let ?off = "\<lparr>label_of = cap (id_tech t) i, lhs = [(1, ?g)], rel = LE, rhs = 0\<rparr>"
  let ?full = "\<lparr>label_of = cap (id_tech t) i, lhs = [(1, ?g), (- 1, V_c (id_tech t))],
                rel = LE, rhs = 0\<rparr>"
  note mem = gen_row_in_constraints [OF assms, of _ minRenewables]
  have on: "?on \<in> set (constraints ?m)" if "type_tech t = renewable" "1 / 1000 < ?a"
    using that by (intro mem) (simp add: genRows_def Let_def profile_of_availability)
  have off: "?off \<in> set (constraints ?m)" if "type_tech t = renewable" "?a \<le> 1 / 1000"
    using that by (intro mem) (simp add: genRows_def Let_def profile_of_availability)
  have full: "?full \<in> set (constraints ?m)" if "type_tech t = dispatchable \<or> type_tech t = baseload"
    using that by (intro mem) (auto simp add: genRows_def Let_def)
  have bnd: "?g \<in> set (bounds ?m)" if "type_tech t = renewable"
    using that by (intro gen_var_in_bounds assms) simp
  have sem: "(case type_tech t of
             renewable \<Rightarrow> if 1 / 1000 < ?a then x ?g - ?a * x (V_c (id_tech t)) \<le> 0 else x ?g = 0
           | storage \<Rightarrow> True
           | _ \<Rightarrow> x ?g - x (V_c (id_tech t)) \<le> 0)" if feas: "feasible ?m x" for x
  proof (cases "type_tech t")
    case renewable
    show ?thesis
    proof (cases "1 / 1000 < ?a")
      case True
      from feasible_holds [OF feas on [OF renewable True]] renewable True
      show ?thesis by (simp add: holds_def)
    next
      case False
      then have le: "?a \<le> 1 / 1000" by simp
      from feasible_holds [OF feas off [OF renewable le]] have "x ?g \<le> 0"
        by (simp add: holds_def)
      moreover from feasible_bound [OF feas bnd [OF renewable]] have "0 \<le> x ?g" .
      ultimately show ?thesis using renewable False by simp
    qed
  next
    case storage
    then show ?thesis by simp
  next
    case baseload
    with feasible_holds [OF feas full] show ?thesis by (simp add: holds_def)
  next
    case dispatchable
    with feasible_holds [OF feas full] show ?thesis by (simp add: holds_def)
  qed
  from on off full bnd sem show ?thesis by blast
qed


theorem capacity_link_rows_witness:
  "ex_solar \<in> set [ex_solar, ex_gas] \<and> enabled ex_solar \<and> ex_gas \<in> set [ex_solar, ex_gas]
   \<and> enabled ex_gas \<and> 1 < length (concat [[ex_hour, ex_night]])
   \<and> \<lparr>label_of = cap SOLAR 0, lhs = [(1, V_g SOLAR 0), (- (1 / 2), V_c SOLAR)], rel = LE, rhs = 0\<rparr>
       \<in> set (constraints (lp (buildLPModel [ex_solar, ex_gas] [[ex_hour, ex_night]] 0)))
   \<and> \<lparr>label_of = cap SOLAR 1, lhs = [(1, V_g SOLAR 1)], rel = LE, rhs = 0\<rparr>
       \<in> set (constraints (lp (buildLPModel [ex_solar, ex_gas] [[ex_hour, ex_night]] 0)))
   \<and> \<lparr>label_of = cap GAS_CCGT 1, lhs = [(1, V_g GAS_CCGT 1), (- 1, V_c GAS_CCGT)], rel = LE, rhs = 0\<rparr>
       \<in> set (constraints (lp (buildLPModel [ex_solar, ex_gas] [[ex_hour, ex_night]] 0)))
   \<and> feasible (lp (buildLPModel [ex_solar, ex_gas] [[ex_hour, ex_night]] 0)) ex_dispatch
   \<and> ex_dispatch (V_g SOLAR 0) - 1 / 2 * ex_dispatch (V_c SOLAR) \<le> 0
   \<and> ex_dispatch (V_g SOLAR 1) = 0
   \<and> ex_dispatch (V_g GAS_CCGT 1) - ex_dispatch (V_c GAS_CCGT) \<le> 0"
proof -
  have s: "ex_solar \<in> set [ex_solar, ex_gas]" and g: "ex_gas \<in> set [ex_solar, ex_gas]"
    and es: "enabled ex_solar" and eg: "enabled ex_gas"
    and l0: "0 < length (concat [[ex_hour, ex_night]])"
    and l1: "1 < length (concat [[ex_hour, ex_night]])"
    by (simp_all add: ex_defs)
  note day = capacity_link_rows [OF s es l0, of 0]
  note night = capacity_link_rows [OF s es l1, of 0]
  note gas = capacity_link_rows [OF g eg l1, of 0]
  have av: "availability SOLAR ex_hour = 1 / 2" "availability SOLAR ex_night = 0"
    by (simp_all add: availability_def ex_defs)
  have ty: "id_tech ex_solar = SOLAR" "type_tech ex_solar = renewable"
    "id_tech ex_gas = GAS_CCGT" "type_tech ex_gas = dispatchable"
    by (simp_all add: ex_defs)
  show ?thesis
    using day night gas ex_dispatch_feasible s g es eg l1
    by (simp add: av ty)
qed

subsection \<open>Minimum renewable share\<close>

text \<open>
  C4. When a minimum renewable share of X percent, 0 < X \<le> 100, is supplied and the
  weighted demand over the hours flagged includeInStats is not negative, every feasible
  point of the program keeps the weighted generation, over those hours, of the enabled
  technologies that are neither renewable nor storage at or below (1 - X/100) times that
  weighted demand.
\<close>

theorem min_renewables_bound:
  assumes "0 < minRenewables" and "minRenewables \<le> 100"
    and "0 \<le> (\<Sum>h\<leftarrow>filter includeInStats (concat dataChunks). demand h * weight h)"
    and "feasible (lp (buildLPModel techs dataChunks minRenewables)) x"
  shows "(\<Sum>t\<leftarrow>filter (\<lambda>t. type_tech t \<noteq> renewable \<and> type_tech t \<noteq> storage) (enabledTechs techs).
            \<Sum>i\<leftarrow>filter (\<lambda>i. includeInStats (concat dataChunks ! i)) [0..<length (concat dataChunks)].
              weight (concat dataChunks ! i) * x (V_g (id_tech t) i))
         \<le> (1 - minRenewables / 100)
             * (\<Sum>h\<leftarrow>filter includeInStats (concat dataChunks). demand h * weight h)"
proof -
  let ?flat = "concat dataChunks"
  let ?terms = "nonRezGenTerms techs ?flat"
  let ?D = "\<Sum>h\<leftarrow>filter includeInStats ?flat. demand h * weight h"
  have "eval_form x ?terms \<le> (1 - minRenewables / 100) * ?D"
  proof (cases "?terms = []")
    case True
    have "0 \<le> (1 - minRenewables / 100) * ?D"
      using assms(2,3) by simp
    with True show ?thesis by simp
  next
    case False
    from feasible_holds [OF assms(4) min_res_row_in_constraints [OF assms(1) False]]
    show ?thesis
      by (simp add: holds_def totalAnnualDemand_def mult.commute)
  qed
  then show ?thesis
    by (simp only: eval_form_nonRezGenTerms)
qed

theorem min_renewables_bound_witness:
  "(0::real) < 50 \<and> (50::real) \<le> 100
   \<and> 0 \<le> (\<Sum>h\<leftarrow>filter includeInStats (concat [[ex_hour, ex_night]]). demand h * weight h)
   \<and> feasible (lp (buildLPModel [ex_solar, ex_gas] [[ex_hour, ex_night]] 50)) ex_dispatch
   \<and> 13 * ex_dispatch (V_g GAS_CCGT 0) + 13 * ex_dispatch (V_g GAS_CCGT 1)
       \<le> (1 - 50 / 100) * (4995 / 10000 * 13 + 4995 / 10000 * 13)"
proof -
  have d: "0 \<le> (\<Sum>h\<leftarrow>filter includeInStats (concat [[ex_hour, ex_night]]). demand h * weight h)"
    by (simp add: ex_defs)
  show ?thesis
    using min_renewables_bound [OF _ _ d ex_dispatch_feasible_half] ex_dispatch_feasible_half d
    by (simp add: enabledTechs_def ex_defs)
qed

subsection \<open>Fixed capacity\<close>

text \<open>
  C5. For every enabled technology flagged fixed, the program has an equality row that pins
  its capacity variable (the energy capacity of a storage technology, the power capacity of
  any other) to the supplied fixed capacity times 1000, a missing value counting as 0.
  Whenever the solver answers Optimal with a point that satisfies the program, and the
  enabled technologies have distinct identifiers, the result is produced and the installed
  capacity it reports for that technology is that value, whatever the other inputs are.
\<close>

theorem fixed_capacity_pinned:
  assumes "t \<in> set techs" and "enabled t" and "isFixed t"
  shows
    "\<lparr>label_of = (if type_tech t = storage then fix_e (id_tech t) else fix_c (id_tech t)),
      lhs = [(1, if type_tech t = storage then V_e (id_tech t) else V_c (id_tech t))],
      rel = EQ, rhs = num_or (fixedCapacity t) 0 * 1000\<rparr>
     \<in> set (constraints (lp (buildLPModel techs dataChunks minRenewables)))
     \<and> (\<forall>solve res.
           distinct (map id_tech (enabledTechs techs))
           \<and> solve (lp (buildLPModel techs dataChunks minRenewables)) = Inr res
           \<and> Status res = ''Optimal''
           \<and> feasible (lp (buildLPModel techs dataChunks minRenewables)) (primal (Columns res))
           \<longrightarrow> (\<exists>r. optimizeWithHiGHS solve techs dataChunks minRenewables = Inr r
                    \<and> capacities r (id_tech t) = Some (num_or (fixedCapacity t) 0 * 1000)))"
proof -
  let ?m = "lp (buildLPModel techs dataChunks minRenewables)"
  let ?v = "if type_tech t = storage then V_e (id_tech t) else V_c (id_tech t)"
  let ?row = "\<lparr>label_of = (if type_tech t = storage then fix_e (id_tech t) else fix_c (id_tech t)),
      lhs = [(1, ?v)], rel = EQ, rhs = num_or (fixedCapacity t) 0 * 1000\<rparr>"
  from assms(1,2) have en: "t \<in> set (enabledTechs techs)"
    by (simp add: enabledTechs_def)
  have "?row \<in> set (consR (capacityRows t))"
    using assms(3) by (simp add: capacityRows_def Let_def)
  with en have row: "?row \<in> set (constraints ?m)"
    by (rule capacity_row_in_constraints)
  have "\<exists>r. optimizeWithHiGHS solve techs dataChunks minRenewables = Inr r
          \<and> capacities r (id_tech t) = Some (num_or (fixedCapacity t) 0 * 1000)"
    if d: "distinct (map id_tech (enabledTechs techs))" and s: "solve ?m = Inr res"
      and o: "Status res = ''Optimal''" and f: "feasible ?m (primal (Columns res))"
    for solve res
  proof -
    from feasible_holds [OF f row] have "primal (Columns res) ?v = num_or (fixedCapacity t) 0 * 1000"
      by (simp add: holds_def)
    with capacities_of_distinct [OF d assms(1,2), of "Columns res"]
    have "capacities_of techs (Columns res) (id_tech t) = Some (num_or (fixedCapacity t) 0 * 1000)"
      by simp
    then show ?thesis
      using optimize_optimal [where solve = solve and res = res, OF s o] by simp
  qed
  with row show ?thesis by blast
qed

theorem fixed_capacity_pinned_witness:
  "ex_solar \<in> set [ex_solar, ex_gas] \<and> enabled ex_solar \<and> isFixed ex_solar
   \<and> \<lparr>label_of = fix_c SOLAR, lhs = [(1, V_c SOLAR)], rel = EQ, rhs = 1\<rparr>
      \<in> set (constraints (lp (buildLPModel [ex_solar, ex_gas] [[ex_hour, ex_night]] 0)))
   \<and> distinct (map id_tech (enabledTechs [ex_solar, ex_gas]))
   \<and> feasible (lp (buildLPModel [ex_solar, ex_gas] [[ex_hour, ex_night]] 0)) ex_dispatch
   \<and> (\<exists>r. optimizeWithHiGHS ex_highs [ex_solar, ex_gas] [[ex_hour, ex_night]] 0 = Inr r
          \<and> capacities r SOLAR = Some 1)"
proof -
  have s: "ex_solar \<in> set [ex_solar, ex_gas]" "enabled ex_solar" "isFixed ex_solar"
    and d: "distinct (map id_tech (enabledTechs [ex_solar, ex_gas]))"
    and v: "id_tech ex_solar = SOLAR" "type_tech ex_solar = renewable"
      "num_or (fixedCapacity ex_solar) 0 * 1000 = 1"
    by (simp_all add: ex_defs enabledTechs_def num_or_def)
  have a: "ex_highs (lp (buildLPModel [ex_solar, ex_gas] [[ex_hour, ex_night]] 0))
      = Inr \<lparr>Status = ''Optimal'', Columns = (\<lambda>v. Some (ex_dispatch v))\<rparr>"
    by (simp add: ex_highs_def)
  note pinned = fixed_capacity_pinned [OF s, of "[[ex_hour, ex_night]]" 0]
  from pinned have row: "\<lparr>label_of = fix_c SOLAR, lhs = [(1, V_c SOLAR)], rel = EQ, rhs = 1\<rparr>
      \<in> set (constraints (lp (buildLPModel [ex_solar, ex_gas] [[ex_hour, ex_night]] 0)))"
    by (simp add: v)
  from pinned [THEN conjunct2, rule_format, of ex_highs
      "\<lparr>Status = ''Optimal'', Columns = (\<lambda>v. Some (ex_dispatch v))\<rparr>"]
    a d ex_dispatch_feasible
  have "\<exists>r. optimizeWithHiGHS ex_highs [ex_solar, ex_gas] [[ex_hour, ex_night]] 0 = Inr r
          \<and> capacities r SOLAR = Some 1"
    by (simp add: v ex_highs_primal)
  with row s d ex_dispatch_feasible show ?thesis by simp
qed

subsection \<open>Annualised fixed cost\<close>

text \<open>
  C6. For a technology of lifetime n > 0 and discount rate r (the percentage \<open>wacc\<close> over
  100), the annual fixed cost is capex times r (1 + r)^n / ((1 + r)^n - 1), a quotient with a
  positive divisor, plus the fixed opex when r > 0, and capex / n plus the fixed opex when
  r = 0; the objective prices the capacity of an enabled technology that is not storage at
  1000 times that cost. For an enabled storage technology the objective prices the energy
  capacity: the capex per kWh (the field \<open>capexPerKwh\<close>, or capex over the duration when it is
  missing or 0) is annualised the same way, the fixed opex is divided by the duration (4
  hours when the field is missing or 0), and the sum is taken per MWh, times 1000.
\<close>

theorem annualized_fixed_cost:
  assumes "0 < lifetime t"
  shows
    "(0 < wacc t \<longrightarrow>
        0 < (1 + wacc t / 100) ^ nat (lifetime t) - 1
        \<and> getAnnualFixedCost t =
            capex t * (wacc t / 100 * (1 + wacc t / 100) ^ nat (lifetime t)
                       / ((1 + wacc t / 100) ^ nat (lifetime t) - 1))
            + opexFixed t)
     \<and> (wacc t = 0 \<longrightarrow>
        getAnnualFixedCost t = capex t / real_of_int (lifetime t) + opexFixed t)
     \<and> (t \<in> set techs \<and> enabled t \<and> type_tech t \<noteq> storage \<longrightarrow>
        (getAnnualFixedCost t * 1000, V_c (id_tech t))
        \<in> set (objective (lp (buildLPModel techs dataChunks minRenewables))))
     \<and> (t \<in> set techs \<and> enabled t \<and> type_tech t = storage \<longrightarrow>
        (\<exists>c. (c, V_e (id_tech t)) \<in> set (objective (lp (buildLPModel techs dataChunks minRenewables)))
           \<and> (0 < wacc t \<longrightarrow>
                c = (num_or (capexPerKwh t) (capex t / num_or (duration t) 4)
                       * (wacc t / 100 * (1 + wacc t / 100) ^ nat (lifetime t)
                          / ((1 + wacc t / 100) ^ nat (lifetime t) - 1))
                     + opexFixed t / num_or (duration t) 4) * 1000)
           \<and> (wacc t = 0 \<longrightarrow>
                c = (num_or (capexPerKwh t) (capex t / num_or (duration t) 4)
                       / real_of_int (lifetime t)
                     + opexFixed t / num_or (duration t) 4) * 1000)))"
proof -
  let ?m = "lp (buildLPModel techs dataChunks minRenewables)"
  have pos: "0 < (1 + wacc t / 100) ^ nat (lifetime t) - 1" if "0 < wacc t"
  proof -
    from that have "1 < 1 + wacc t / 100" by simp
    moreover from assms have "0 < nat (lifetime t)" by simp
    ultimately have "1 < (1 + wacc t / 100) ^ nat (lifetime t)"
      by (rule one_less_power)
    then show ?thesis by simp
  qed
  have rate: "getAnnualFixedCost t =
            capex t * (wacc t / 100 * (1 + wacc t / 100) ^ nat (lifetime t)
                       / ((1 + wacc t / 100) ^ nat (lifetime t) - 1))
            + opexFixed t" if "0 < wacc t"
    using that assms by (simp add: getAnnualFixedCost_def Let_def)
  have flat: "getAnnualFixedCost t = capex t / real_of_int (lifetime t) + opexFixed t"
    if "wacc t = 0"
    using that assms by (simp add: getAnnualFixedCost_def Let_def)
  have power: "(getAnnualFixedCost t * 1000, V_c (id_tech t)) \<in> set (objective ?m)"
    if "t \<in> set techs \<and> enabled t \<and> type_tech t \<noteq> storage"
    using that by (intro capacity_term_in_objective [of t]) (simp_all add: capacityRows_def Let_def)
  have energy: "\<exists>c. (c, V_e (id_tech t)) \<in> set (objective ?m)
           \<and> (0 < wacc t \<longrightarrow>
                c = (num_or (capexPerKwh t) (capex t / num_or (duration t) 4)
                       * (wacc t / 100 * (1 + wacc t / 100) ^ nat (lifetime t)
                          / ((1 + wacc t / 100) ^ nat (lifetime t) - 1))
                     + opexFixed t / num_or (duration t) 4) * 1000)
           \<and> (wacc t = 0 \<longrightarrow>
                c = (num_or (capexPerKwh t) (capex t / num_or (duration t) 4)
                       / real_of_int (lifetime t)
                     + opexFixed t / num_or (duration t) 4) * 1000)"
    if s: "t \<in> set techs \<and> enabled t \<and> type_tech t = storage"
  proof (intro exI [of _ "annualCostPerMwh t"] conjI impI)
    show "(annualCostPerMwh t, V_e (id_tech t)) \<in> set (objective ?m)"
      using s by (intro capacity_term_in_objective [of t]) (simp_all add: capacityRows_def)
  next
    assume "0 < wacc t"
    with assms show "annualCostPerMwh t =
        (num_or (capexPerKwh t) (capex t / num_or (duration t) 4)
           * (wacc t / 100 * (1 + wacc t / 100) ^ nat (lifetime t)
              / ((1 + wacc t / 100) ^ nat (lifetime t) - 1))
         + opexFixed t / num_or (duration t) 4) * 1000"
      by (simp add: annualCostPerMwh_def Let_def)
  next
    assume "wacc t = 0"
    with assms show "annualCostPerMwh t =
        (num_or (capexPerKwh t) (capex t / num_or (duration t) 4) / real_of_int (lifetime t)
         + opexFixed t / num_or (duration t) 4) * 1000"
      by (simp add: annualCostPerMwh_def Let_def)
  qed
  from pos rate flat power energy show ?thesis by blast
qed

theorem annualized_fixed_cost_witness:
  "0 < lifetime ex_gas \<and> 0 < lifetime ex_battery \<and> 0 < lifetime ex_battery_free
   \<and> getAnnualFixedCost ex_gas
       = 2000 * (10 / 100 * (1 + 10 / 100) ^ 20 / ((1 + 10 / 100) ^ 20 - 1)) + 30
   \<and> (getAnnualFixedCost ex_gas * 1000, V_c GAS_CCGT)
       \<in> set (objective (lp (buildLPModel [ex_gas, ex_battery] [[ex_hour]] 0)))
   \<and> (\<exists>c. (c, V_e BATTERY) \<in> set (objective (lp (buildLPModel [ex_gas, ex_battery] [[ex_hour]] 0)))
          \<and> c = (120 * (5 / 100 * (1 + 5 / 100) ^ 20 / ((1 + 5 / 100) ^ 20 - 1)) + 10 / 4) * 1000)
   \<and> (\<exists>c. (c, V_e BATTERY) \<in> set (objective (lp (buildLPModel [ex_battery_free] [[ex_hour]] 0)))
          \<and> c = 8500)"
proof -
  have g: "0 < lifetime ex_gas" and b: "0 < lifetime ex_battery"
    and f: "0 < lifetime ex_battery_free"
    by (simp_all add: ex_defs ex_battery_free_def)
  note gas = annualized_fixed_cost [OF g, of "[ex_gas, ex_battery]" "[[ex_hour]]" 0]
  note batt = annualized_fixed_cost [OF b, of "[ex_gas, ex_battery]" "[[ex_hour]]" 0]
  note free = annualized_fixed_cost [OF f, of "[ex_battery_free]" "[[ex_hour]]" 0]
  have vg: "wacc ex_gas = 10" "capex ex_gas = 2000" "opexFixed ex_gas = 30" "lifetime ex_gas = 20"
    "enabled ex_gas" "type_tech ex_gas = dispatchable" "id_tech ex_gas = GAS_CCGT"
    by (simp_all add: ex_defs)
  have vb: "wacc ex_battery = 5" "capex ex_battery = 480" "opexFixed ex_battery = 10"
    "lifetime ex_battery = 20" "enabled ex_battery" "type_tech ex_battery = storage"
    "id_tech ex_battery = BATTERY" "capexPerKwh ex_battery = Some 120" "duration ex_battery = Some 4"
    by (simp_all add: ex_defs)
  have vf: "wacc ex_battery_free = 0" "capex ex_battery_free = 480" "opexFixed ex_battery_free = 10"
    "lifetime ex_battery_free = 20" "enabled ex_battery_free" "type_tech ex_battery_free = storage"
    "id_tech ex_battery_free = BATTERY" "capexPerKwh ex_battery_free = Some 120"
    "duration ex_battery_free = Some 4"
    by (simp_all add: ex_defs ex_battery_free_def)
  have pg: "0 < wacc ex_gas"
    "ex_gas \<in> set [ex_gas, ex_battery] \<and> enabled ex_gas \<and> type_tech ex_gas \<noteq> storage"
    and pb: "0 < wacc ex_battery"
    "ex_battery \<in> set [ex_gas, ex_battery] \<and> enabled ex_battery \<and> type_tech ex_battery = storage"
    and pf: "wacc ex_battery_free = 0"
    "ex_battery_free \<in> set [ex_battery_free] \<and> enabled ex_battery_free
       \<and> type_tech ex_battery_free = storage"
    by (simp_all add: vg vb vf)
  from gas pg(1) have "getAnnualFixedCost ex_gas =
      capex ex_gas * (wacc ex_gas / 100 * (1 + wacc ex_gas / 100) ^ nat (lifetime ex_gas)
                      / ((1 + wacc ex_gas / 100) ^ nat (lifetime ex_gas) - 1))
      + opexFixed ex_gas"
    by blast
  then have 1: "getAnnualFixedCost ex_gas
       = 2000 * (10 / 100 * (1 + 10 / 100) ^ 20 / ((1 + 10 / 100) ^ 20 - 1)) + 30"
    by (simp add: vg)
  from gas pg(2) have "(getAnnualFixedCost ex_gas * 1000, V_c (id_tech ex_gas))
       \<in> set (objective (lp (buildLPModel [ex_gas, ex_battery] [[ex_hour]] 0)))"
    by blast
  then have 2: "(getAnnualFixedCost ex_gas * 1000, V_c GAS_CCGT)
       \<in> set (objective (lp (buildLPModel [ex_gas, ex_battery] [[ex_hour]] 0)))"
    by (simp only: vg)
  from batt pb obtain c where
    "(c, V_e (id_tech ex_battery)) \<in> set (objective (lp (buildLPModel [ex_gas, ex_battery] [[ex_hour]] 0)))"
    "c = (num_or (capexPerKwh ex_battery) (capex ex_battery / num_or (duration ex_battery) 4)
            * (wacc ex_battery / 100 * (1 + wacc ex_battery / 100) ^ nat (lifetime ex_battery)
               / ((1 + wacc ex_battery / 100) ^ nat (lifetime ex_battery) - 1))
          + opexFixed ex_battery / num_or (duration ex_battery) 4) * 1000"
    by blast
  then have 3: "\<exists>c. (c, V_e BATTERY) \<in> set (objective (lp (buildLPModel [ex_gas, ex_battery] [[ex_hour]] 0)))
          \<and> c = (120 * (5 / 100 * (1 + 5 / 100) ^ 20 / ((1 + 5 / 100) ^ 20 - 1)) + 10 / 4) * 1000"
    by (intro exI [of _ c]) (simp add: vb num_or_def)
  from free pf obtain c where
    "(c, V_e (id_tech ex_battery_free)) \<in> set (objective (lp (buildLPModel [ex_battery_free] [[ex_hour]] 0)))"
    "c = (num_or (capexPerKwh ex_battery_free) (capex ex_battery_free / num_or (duration ex_battery_free) 4)
            / real_of_int (lifetime ex_battery_free)
          + opexFixed ex_battery_free / num_or (duration ex_battery_free) 4) * 1000"
    by blast
  then have 4: "\<exists>c. (c, V_e BATTERY) \<in> set (objective (lp (buildLPModel [ex_battery_free] [[ex_hour]] 0)))
          \<and> c = 8500"
    by (intro exI [of _ c]) (simp add: vf num_or_def)
  from g b f 1 2 3 4 show ?thesis by blast
qed

subsection \<open>Curtailment\<close>

text \<open>
  C7, as the claim states it, fails inside the tolerance of the extraction: for fixed solar
  alone over the sample week the optimal answer of the solver leaves 0.0005 MW of the
  available solar output unused at hour 0, and the reported curtailment of that hour is 0,
  not max(0, capacity * availability - generation) = 0.0005.
\<close>

theorem curtailment_counterexample:
  "feasible (lp (buildLPModel [ex_solar] [ex_week] 0)) (primal ex_week_columns)
   \<and> \<not> (\<exists>x. feasible (lp (buildLPModel [ex_solar] [ex_week] 0)) x
            \<and> eval_form x (objective (lp (buildLPModel [ex_solar] [ex_week] 0)))
                < eval_form (primal ex_week_columns)
                    (objective (lp (buildLPModel [ex_solar] [ex_week] 0))))
   \<and> (\<exists>r. optimizeWithHiGHS ex_highs_week [ex_solar] [ex_week] 0 = Inr r
          \<and> capacities r SOLAR = Some 1
          \<and> curtailment (hourly r ! 0) = 0
          \<and> curtailment (hourly r ! 0)
               \<noteq> max 0 (entry_or0 (capacities r) SOLAR * availability SOLAR (concat [ex_week] ! 0)
                          - primal ex_week_columns (V_g SOLAR 0)))"
proof -
  have a: "ex_highs_week (lp (buildLPModel [ex_solar] [ex_week] 0))
     = Inr \<lparr>Status = ''Optimal'', Columns = ex_week_columns\<rparr>"
    by (simp add: ex_highs_week_def)
  have caps: "capacities_of [ex_solar] ex_week_columns = [SOLAR \<mapsto> 1]"
    by (simp add: capacities_of_def enabledTechs_def ex_solar_def primal_def ex_week_columns_def)
  have h: "ex_week ! 0 = ex_hour"
    by (simp add: ex_week_def)
  have c: "curtailment (hourResult [ex_solar] ex_week_columns [SOLAR \<mapsto> 1] ex_week 0) = 0"
    unfolding hourResult_def Let_def h
    by (simp add: hourlyCurtailment_def curtailmentStep_def enabledTechs_def ex_solar_def
        profile_of_def ex_hour_def entry_or0_def primal_def ex_week_columns_def)
  have n: "hourlyResults [ex_solar] ex_week_columns [SOLAR \<mapsto> 1] ex_week ! 0
      = hourResult [ex_solar] ex_week_columns [SOLAR \<mapsto> 1] ex_week 0"
    by (rule hourlyResults_nth) (simp add: ex_week_def)
  have m: "max 0 (entry_or0 [SOLAR \<mapsto> 1] SOLAR * availability SOLAR (ex_week ! 0)
                          - primal ex_week_columns (V_g SOLAR 0)) = 5 / 10000"
    unfolding h
    by (simp add: entry_or0_def availability_def ex_hour_def primal_def ex_week_columns_def)
  have best: "\<not> (\<exists>x. feasible (lp (buildLPModel [ex_solar] [ex_week] 0)) x
            \<and> eval_form x (objective (lp (buildLPModel [ex_solar] [ex_week] 0)))
                < eval_form (primal ex_week_columns)
                    (objective (lp (buildLPModel [ex_solar] [ex_week] 0))))"
    using ex_week_columns_optimal by (auto simp add: not_less)
  have "\<exists>r. optimizeWithHiGHS ex_highs_week [ex_solar] [ex_week] 0 = Inr r
          \<and> capacities r SOLAR = Some 1
          \<and> curtailment (hourly r ! 0) = 0
          \<and> curtailment (hourly r ! 0)
               \<noteq> max 0 (entry_or0 (capacities r) SOLAR * availability SOLAR (concat [ex_week] ! 0)
                          - primal ex_week_columns (V_g SOLAR 0))"
    using optimize_optimal [where solve = ex_highs_week and res = "\<lparr>Status = ''Optimal'', Columns = ex_week_columns\<rparr>", OF a]
    by (simp add: caps n c m)
  with ex_week_columns_feasible best show ?thesis
    by (intro conjI)
qed

text \<open>
  C7, amended. Whenever a result is produced, the reported curtailment of every hour is the
  sum, over the enabled renewable technologies, of capacity * availability - generation
  where that exceeds the tolerance 0.001 and of 0 elsewhere, with the capacity and the
  generation read from the solver's answer. It is never negative, it is no variable of the
  program, and technologies that are not renewable add nothing to it.
\<close>

theorem curtailment_reported:
  assumes "solve (lp (buildLPModel techs dataChunks minRenewables)) = Inr res"
    and "Status res = ''Optimal''"
    and "i < length (concat dataChunks)"
  shows "\<exists>r. optimizeWithHiGHS solve techs dataChunks minRenewables = Inr r
           \<and> curtailment (hourly r ! i) =
               (\<Sum>t\<leftarrow>filter (\<lambda>t. type_tech t = renewable) (enabledTechs techs).
                  if primal (Columns res) (V_g (id_tech t) i) + 1 / 1000
                       < entry_or0 (capacities r) (id_tech t)
                         * availability (id_tech t) (concat dataChunks ! i)
                  then entry_or0 (capacities r) (id_tech t)
                         * availability (id_tech t) (concat dataChunks ! i)
                       - primal (Columns res) (V_g (id_tech t) i)
                  else 0)
           \<and> 0 \<le> curtailment (hourly r ! i)"
proof -
  let ?caps = "capacities_of techs (Columns res)"
  let ?sum = "\<Sum>t\<leftarrow>filter (\<lambda>t. type_tech t = renewable) (enabledTechs techs).
                  if primal (Columns res) (V_g (id_tech t) i) + 1 / 1000
                       < entry_or0 ?caps (id_tech t) * availability (id_tech t) (concat dataChunks ! i)
                  then entry_or0 ?caps (id_tech t) * availability (id_tech t) (concat dataChunks ! i)
                       - primal (Columns res) (V_g (id_tech t) i)
                  else 0"
  have c: "curtailment (hourResult techs (Columns res) ?caps (concat dataChunks) i) = ?sum"
    by (simp add: hourResult_def Let_def hourlyCurtailment_def curtailment_fold)
  have nonneg: "0 \<le> ?sum"
    by (rule sum_list_nonneg) auto
  from assms(1,2) obtain r where r: "optimizeWithHiGHS solve techs dataChunks minRenewables = Inr r"
    "hourly r = hourlyResults techs (Columns res) ?caps (concat dataChunks)"
    "capacities r = ?caps"
    by (rule optimize_optimal_fields)
  have "curtailment (hourly r ! i) = ?sum"
    unfolding r(2) hourlyResults_nth [OF assms(3)] by (rule c)
  with nonneg r(1) show ?thesis
    by (intro exI [of _ r]) (simp add: r(3) cong del: if_weak_cong)
qed

theorem curtailment_reported_witness:
  "ex_highs_week (lp (buildLPModel [ex_solar] [ex_week] 0))
     = Inr \<lparr>Status = ''Optimal'', Columns = ex_week_columns\<rparr>
   \<and> 0 < length (concat [ex_week])
   \<and> (\<exists>r. optimizeWithHiGHS ex_highs_week [ex_solar] [ex_week] 0 = Inr r
          \<and> curtailment (hourly r ! 0) =
              (if primal ex_week_columns (V_g SOLAR 0) + 1 / 1000
                   < entry_or0 (capacities r) SOLAR * availability SOLAR (concat [ex_week] ! 0)
               then entry_or0 (capacities r) SOLAR * availability SOLAR (concat [ex_week] ! 0)
                    - primal ex_week_columns (V_g SOLAR 0)
               else 0)
          \<and> 0 \<le> curtailment (hourly r ! 0))"
proof -
  have a: "ex_highs_week (lp (buildLPModel [ex_solar] [ex_week] 0))
     = Inr \<lparr>Status = ''Optimal'', Columns = ex_week_columns\<rparr>"
    by (simp add: ex_highs_week_def)
  have l: "0 < length (concat [ex_week])"
    by (simp add: ex_week_def)
  have en: "enabledTechs [ex_solar] = [ex_solar]" "type_tech ex_solar = renewable"
    "id_tech ex_solar = SOLAR"
    by (simp_all add: enabledTechs_def ex_solar_def)
  from curtailment_reported
         [where solve = ex_highs_week
            and res = "\<lparr>Status = ''Optimal'', Columns = ex_week_columns\<rparr>", OF a _ l]
  show ?thesis
    using a l by (simp add: en split del: if_split cong del: if_weak_cong)
qed

subsection \<open>Solver failure\<close>

text \<open>
  C8. Whenever the solver returns a status other than Optimal, \<open>optimizeWithHiGHS\<close> raises
  the error "Solver failed: " followed by that status, and so returns no result.
\<close>

theorem non_optimal_status_raises:
  assumes "solve (lp (buildLPModel techs dataChunks minRenewables)) = Inr res"
    and "Status res \<noteq> ''Optimal''"
  shows "optimizeWithHiGHS solve techs dataChunks minRenewables
         = Inl (Error (''Solver failed: '' @ Status res))"
  using assms by (simp add: optimizeWithHiGHS_def Let_def)

theorem non_optimal_status_raises_witness:
  "ex_highs_infeasible (lp (buildLPModel [ex_solar, ex_gas] [[ex_hour, ex_night]] 0))
     = Inr \<lparr>Status = ''Infeasible'', Columns = Map.empty\<rparr>
   \<and> ''Infeasible'' \<noteq> ''Optimal''
   \<and> optimizeWithHiGHS ex_highs_infeasible [ex_solar, ex_gas] [[ex_hour, ex_night]] 0
       = Inl (Error ''Solver failed: Infeasible'')"
proof -
  have a: "ex_highs_infeasible (lp (buildLPModel [ex_solar, ex_gas] [[ex_hour, ex_night]] 0))
     = Inr \<lparr>Status = ''Infeasible'', Columns = Map.empty\<rparr>"
    by (simp add: ex_highs_infeasible_def)
  from non_optimal_status_raises
         [where solve = ex_highs_infeasible
            and res = "\<lparr>Status = ''Infeasible'', Columns = Map.empty\<rparr>", OF a] a
  show ?thesis by simp
qed

subsection \<open>Levelised cost\<close>

text \<open>
  C9. Whenever a result is produced, the levelised cost is the recomputed total cost (fixed
  plus variable) divided by max(0.1, weighted demand minus weighted unserved energy), a
  positive divisor. In particular, when no technology is enabled and the solver's answer
  satisfies the program, the unserved energy of every hour is the demand of that hour, the
  weighted served energy is 0, and the levelised cost is the total cost divided by 0.1.
\<close>

theorem lcoe_guarded:
  assumes "solve (lp (buildLPModel techs dataChunks minRenewables)) = Inr res"
    and "Status res = ''Optimal''"
  shows "\<exists>r. optimizeWithHiGHS solve techs dataChunks minRenewables = Inr r
           \<and> totalCost r = totalFixedCost techs (capacities r)
                            + totalVariableCost techs (Columns res) (concat dataChunks)
           \<and> lcoe r = totalCost r
                      / max (1 / 10)
                          ((\<Sum>h\<leftarrow>filter includeInStats (concat dataChunks). demand h * weight h)
                           - unservedEnergy r)
           \<and> 0 < max (1 / 10)
                    ((\<Sum>h\<leftarrow>filter includeInStats (concat dataChunks). demand h * weight h)
                     - unservedEnergy r)
           \<and> (enabledTechs techs = []
                \<and> feasible (lp (buildLPModel techs dataChunks minRenewables)) (primal (Columns res))
              \<longrightarrow> (\<forall>i < length (concat dataChunks).
                      shortfall (hourly r ! i) = demand (concat dataChunks ! i))
                  \<and> (\<Sum>h\<leftarrow>filter includeInStats (concat dataChunks). demand h * weight h)
                      - unservedEnergy r = 0
                  \<and> totalCost r
                      = 20000000 * (\<Sum>h\<leftarrow>filter includeInStats (concat dataChunks). demand h * weight h)
                  \<and> lcoe r = totalCost r / (1 / 10))"
proof -
  let ?flat = "concat dataChunks"
  let ?sol = "Columns res"
  let ?D = "\<Sum>h\<leftarrow>filter includeInStats ?flat. demand h * weight h"
  from assms obtain r where r: "optimizeWithHiGHS solve techs dataChunks minRenewables = Inr r"
    "hourly r = hourlyResults techs ?sol (capacities_of techs ?sol) ?flat"
    "capacities r = capacities_of techs ?sol"
    "totalCost r = totalFixedCost techs (capacities_of techs ?sol) + totalVariableCost techs ?sol ?flat"
    "unservedEnergy r = annualUnserved ?sol ?flat"
    "annualServed r = max (1 / 10) (annualDemand ?flat - unservedEnergy r)"
    "lcoe r = totalCost r / annualServed r"
    by (rule optimize_optimal_fields)
  have cost: "totalCost r = totalFixedCost techs (capacities r) + totalVariableCost techs ?sol ?flat"
    by (simp add: r(3,4))
  have lc: "lcoe r = totalCost r / max (1 / 10) (?D - unservedEnergy r)"
    by (simp add: r(6,7) annualDemand_sum)
  have pos: "0 < max (1 / 10) (?D - unservedEnergy r)"
    by simp
  have none: "(\<forall>i < length ?flat. shortfall (hourly r ! i) = demand (?flat ! i))
      \<and> ?D - unservedEnergy r = 0 \<and> totalCost r = 20000000 * ?D \<and> lcoe r = totalCost r / (1 / 10)"
    if e: "enabledTechs techs = []"
      and f: "feasible (lp (buildLPModel techs dataChunks minRenewables)) (primal ?sol)"
  proof -
    have u: "primal ?sol (V_u i) = demand (?flat ! i)" if "i < length ?flat" for i
      using e f that by (rule unserved_is_demand)
    have s: "shortfall (hourly r ! i) = demand (?flat ! i)" if "i < length ?flat" for i
      using that by (simp add: r(2) hourlyResults_nth hourResult_def Let_def u)
    let ?stat = "filter (\<lambda>i. includeInStats (?flat ! i)) [0..<length ?flat]"
    have m1: "map (\<lambda>i. primal ?sol (V_u i) * weight (?flat ! i)) ?stat
        = map (\<lambda>i. demand (?flat ! i) * weight (?flat ! i)) ?stat"
      by (rule map_cong) (simp_all add: u)
    have "unservedEnergy r = sum_list (map (\<lambda>i. primal ?sol (V_u i) * weight (?flat ! i)) ?stat)"
      by (simp only: r(5) annualUnserved_sum)
    also have "\<dots> = sum_list (map (\<lambda>i. demand (?flat ! i) * weight (?flat ! i)) ?stat)"
      by (simp only: m1)
    also have "\<dots> = ?D"
      by (rule sum_over_positions
            [where p = includeInStats and xs = ?flat and f = "\<lambda>h. demand h * weight h"])
    finally have un: "unservedEnergy r = ?D" .
    have m2: "map (\<lambda>i. primal ?sol (V_u i) * 20000000 * weight (?flat ! i)) ?stat
        = map (\<lambda>i. 20000000 * (demand (?flat ! i) * weight (?flat ! i))) ?stat"
      by (rule map_cong) (simp_all add: u)
    have "totalVariableCost techs ?sol ?flat
        = sum_list (map (\<lambda>i. primal ?sol (V_u i) * 20000000 * weight (?flat ! i)) ?stat)"
      by (rule totalVariableCost_no_techs [OF e])
    also have "\<dots> = sum_list (map (\<lambda>i. 20000000 * (demand (?flat ! i) * weight (?flat ! i))) ?stat)"
      by (simp only: m2)
    also have "\<dots> = (\<Sum>h\<leftarrow>filter includeInStats ?flat. 20000000 * (demand h * weight h))"
      by (rule sum_over_positions
            [where p = includeInStats and xs = ?flat
               and f = "\<lambda>h. 20000000 * (demand h * weight h)"])
    also have "\<dots> = 20000000 * ?D"
      by (simp add: sum_list_const_mult)
    finally have "totalVariableCost techs ?sol ?flat = 20000000 * ?D" .
    then have tc: "totalCost r = 20000000 * ?D"
      by (simp add: r(4) totalFixedCost_def e)
    from s un tc lc show ?thesis by simp
  qed
  from r(1) cost lc pos none show ?thesis
    by (intro exI [of _ r]) blast
qed


theorem lcoe_guarded_witness:
  "ex_highs_shed (lp (buildLPModel [ex_gas_off] [[ex_hour, ex_night]] 0))
     = Inr \<lparr>Status = ''Optimal'', Columns = (\<lambda>v. Some (ex_shed v))\<rparr>
   \<and> enabledTechs [ex_gas_off] = []
   \<and> feasible (lp (buildLPModel [ex_gas_off] [[ex_hour, ex_night]] 0)) ex_shed
   \<and> (\<exists>r. optimizeWithHiGHS ex_highs_shed [ex_gas_off] [[ex_hour, ex_night]] 0 = Inr r
          \<and> shortfall (hourly r ! 0) = 4995 / 10000
          \<and> shortfall (hourly r ! 1) = 4995 / 10000
          \<and> unservedEnergy r = 129870 / 10000
          \<and> totalCost r = 259740000
          \<and> lcoe r = 2597400000)"
proof -
  let ?res = "\<lparr>Status = ''Optimal'', Columns = (\<lambda>v. Some (ex_shed v))\<rparr>"
  have a: "ex_highs_shed (lp (buildLPModel [ex_gas_off] [[ex_hour, ex_night]] 0)) = Inr ?res"
    by (simp add: ex_highs_shed_def)
  have st: "Status ?res = ''Optimal''"
    by simp
  have e: "enabledTechs [ex_gas_off] = []"
    by (simp add: enabledTechs_def ex_gas_off_def)
  have f: "feasible (lp (buildLPModel [ex_gas_off] [[ex_hour, ex_night]] 0)) (primal (Columns ?res))"
    using ex_shed_feasible_no_techs by (simp add: ex_shed_primal)
  have d: "(\<Sum>h\<leftarrow>filter includeInStats (concat [[ex_hour, ex_night]]). demand h * weight h)
      = 129870 / 10000"
    by (simp add: ex_defs)
  have h: "concat [[ex_hour, ex_night]] ! 0 = ex_hour" "concat [[ex_hour, ex_night]] ! 1 = ex_night"
    "length (concat [[ex_hour, ex_night]]) = 2"
    by simp_all
  from lcoe_guarded [where solve = ex_highs_shed and res = ?res, OF a st]
  obtain r where r: "optimizeWithHiGHS ex_highs_shed [ex_gas_off] [[ex_hour, ex_night]] 0 = Inr r"
    and none: "enabledTechs [ex_gas_off] = []
        \<and> feasible (lp (buildLPModel [ex_gas_off] [[ex_hour, ex_night]] 0)) (primal (Columns ?res))
      \<longrightarrow> (\<forall>i < length (concat [[ex_hour, ex_night]]).
              shortfall (hourly r ! i) = demand (concat [[ex_hour, ex_night]] ! i))
          \<and> (\<Sum>h\<leftarrow>filter includeInStats (concat [[ex_hour, ex_night]]). demand h * weight h)
              - unservedEnergy r = 0
          \<and> totalCost r
              = 20000000 * (\<Sum>h\<leftarrow>filter includeInStats (concat [[ex_hour, ex_night]]). demand h * weight h)
          \<and> lcoe r = totalCost r / (1 / 10)"
    by blast
  from none e f have s: "\<forall>i < length (concat [[ex_hour, ex_night]]).
              shortfall (hourly r ! i) = demand (concat [[ex_hour, ex_night]] ! i)"
    and u: "(\<Sum>h\<leftarrow>filter includeInStats (concat [[ex_hour, ex_night]]). demand h * weight h)
              - unservedEnergy r = 0"
    and c: "totalCost r
              = 20000000 * (\<Sum>h\<leftarrow>filter includeInStats (concat [[ex_hour, ex_night]]). demand h * weight h)"
    and l: "lcoe r = totalCost r / (1 / 10)"
    by blast+
  from s have s0: "shortfall (hourly r ! 0) = 4995 / 10000"
    and s1: "shortfall (hourly r ! 1) = 4995 / 10000"
    unfolding h by (simp_all add: ex_defs)
  from u have u': "unservedEnergy r = 129870 / 10000"
    unfolding d by simp
  from c have c': "totalCost r = 259740000"
    unfolding d by simp
  from l c' have l': "lcoe r = 2597400000"
    by simp
  from a e ex_shed_feasible_no_techs r s0 s1 u' c' l' show ?thesis
    by blast
qed

subsection \<open>Annual and weekly fixed cost\<close>


end
